theory Spec2Isabelle
  imports Complex_Main
begin

section \<open>Values, exceptions and the array store\<close>

text \<open>
  The module \<^verbatim>\<open>legume/minimize.py\<close> defines one class, \<^verbatim>\<open>Minimize\<close>, with a
  hand-written Adam loop and an adapter around SciPy's L-BFGS-B solver.

  Conventions of the embedding:
  \<^item> a float64 number is a value of the type \<open>fl\<close> below: a real number, an infinity
    or NaN. Arithmetic is exact on the numbers and follows IEEE 754 on the rest, so
    that \<open>0/0\<close>, \<open>inf - inf\<close> and the root of a negative number are NaN and every
    comparison with NaN is false; rounding, overflow and the sign of zero are not
    modelled. The hyperparameters \<^verbatim>\<open>step_size\<close>, \<^verbatim>\<open>beta1\<close>, \<^verbatim>\<open>beta2\<close> and \<^verbatim>\<open>epsilon\<close> are
    numbers, of type \<^typ>\<open>real\<close>;
  \<^item> a NumPy array is a one-dimensional float array, a list of \<open>fl\<close>; arrays live in
    a store and are referred to by address, because the Adam loop assigns through
    a boolean mask in place;
  \<^item> every exception is a value of type \<open>error\<close>;
  \<^item> wall-clock time and the text printed by \<^verbatim>\<open>_disp\<close> are not modelled; what remains
    of \<^verbatim>\<open>_disp\<close> is the formatting of the latest objective value, which can raise;
  \<^item> the user's objective and gradient functions are pure functions; the store counts
    how often they are called.
\<close>

datatype error =
    ValueError string
  | TypeError
  | IndexError
  | AttributeError
  | NumpyError

text \<open>
  \<open>NumpyError\<close> stands for the exception NumPy raises when shapes do not fit (a
  \<^verbatim>\<open>ValueError\<close> for operands that cannot be broadcast, an \<^verbatim>\<open>IndexError\<close> for a boolean
  mask of the wrong shape).
\<close>

subsection \<open>Floating-point values\<close>

datatype fl = Fin real | PInf | NInf | NaN

fun fl_neg :: "fl \<Rightarrow> fl" where
  "fl_neg (Fin a) = Fin (- a)"
| "fl_neg PInf = NInf"
| "fl_neg NInf = PInf"
| "fl_neg NaN = NaN"

text \<open>\<^verbatim>\<open>np.sqrt\<close>\<close>

fun fl_sqrt :: "fl \<Rightarrow> fl" where
  "fl_sqrt (Fin a) = (if a < 0 then NaN else Fin (sqrt a))"
| "fl_sqrt PInf = PInf"
| "fl_sqrt NInf = NaN"
| "fl_sqrt NaN = NaN"

text \<open>
  \<open>+\<close>, \<open>-\<close>, \<open>*\<close>, \<open>/\<close>, \<open><\<close> and \<open>\<le>\<close> on \<open>fl\<close>. The equations of a function apply in the
  order written. Division is the constant written \<open>div\<close> in its equations and \<open>/\<close>
  everywhere else; a zero divisor counts as \<open>+0\<close>.
\<close>

instantiation fl :: "{plus, minus, times, inverse, ord}"
begin

fun plus_fl :: "fl \<Rightarrow> fl \<Rightarrow> fl" where
  "Fin a + Fin b = Fin (a + b)"
| "NaN + y = NaN"
| "x + NaN = NaN"
| "PInf + NInf = NaN"
| "NInf + PInf = NaN"
| "PInf + y = PInf"
| "x + PInf = PInf"
| "NInf + y = NInf"
| "x + NInf = NInf"

definition minus_fl :: "fl \<Rightarrow> fl \<Rightarrow> fl" where
  "x - y = x + fl_neg y"

fun times_fl :: "fl \<Rightarrow> fl \<Rightarrow> fl" where
  "Fin a * Fin b = Fin (a * b)"
| "NaN * y = NaN"
| "x * NaN = NaN"
| "PInf * Fin b = (if b = 0 then NaN else if 0 < b then PInf else NInf)"
| "NInf * Fin b = (if b = 0 then NaN else if 0 < b then NInf else PInf)"
| "Fin a * PInf = (if a = 0 then NaN else if 0 < a then PInf else NInf)"
| "Fin a * NInf = (if a = 0 then NaN else if 0 < a then NInf else PInf)"
| "PInf * PInf = PInf"
| "PInf * NInf = NInf"
| "NInf * PInf = NInf"
| "NInf * NInf = PInf"

fun divide_fl :: "fl \<Rightarrow> fl \<Rightarrow> fl" where
  "Fin a div Fin b =
     (if b = 0 then (if a = 0 then NaN else if 0 < a then PInf else NInf) else Fin (a / b))"
| "NaN div y = NaN"
| "x div NaN = NaN"
| "Fin a div PInf = Fin 0"
| "Fin a div NInf = Fin 0"
| "PInf div Fin b = (if 0 \<le> b then PInf else NInf)"
| "NInf div Fin b = (if 0 \<le> b then NInf else PInf)"
| "PInf div PInf = NaN"
| "PInf div NInf = NaN"
| "NInf div PInf = NaN"
| "NInf div NInf = NaN"

definition inverse_fl :: "fl \<Rightarrow> fl" where
  "inverse_fl x = Fin 1 div x"

fun less_fl :: "fl \<Rightarrow> fl \<Rightarrow> bool" where
  "Fin a < Fin b = (a < b)"
| "NaN < y = False"
| "x < NaN = False"
| "x < NInf = False"
| "NInf < y = True"
| "PInf < y = False"
| "x < PInf = True"

fun less_eq_fl :: "fl \<Rightarrow> fl \<Rightarrow> bool" where
  "Fin a \<le> Fin b = (a \<le> b)"
| "NaN \<le> y = False"
| "x \<le> NaN = False"
| "NInf \<le> y = True"
| "x \<le> PInf = True"
| "PInf \<le> y = False"
| "x \<le> NInf = False"

instance ..

end

subsection \<open>Python values\<close>

text \<open>
  Scalar results of an objective: \<^verbatim>\<open>None\<close>, a float, or an autograd \<^verbatim>\<open>ArrayBox\<close> with its
  attribute \<^verbatim>\<open>_value\<close>, which is a float or, under nested differentiation, again an
  \<^verbatim>\<open>ArrayBox\<close>.
\<close>

datatype pyval = PyNone | PyFloat fl | ArrayBox pyval

text \<open>\<^verbatim>\<open>str(type(x))\<close>\<close>

fun type_str :: "pyval \<Rightarrow> string" where
  "type_str PyNone = ''<class 'NoneType'>''"
| "type_str (PyFloat r) = ''<class 'float'>''"
| "type_str (ArrayBox v) = ''<class 'autograd.numpy.numpy_boxes.ArrayBox'>''"

text \<open>\<^verbatim>\<open>x._value\<close>\<close>

fun value_attr :: "pyval \<Rightarrow> error + pyval" where
  "value_attr (ArrayBox v) = Inr v"
| "value_attr x = Inl AttributeError"

text \<open>
  \<^verbatim>\<open>
  def _get_value(x):
      if str(type(x)) == "<class 'autograd.numpy.numpy_boxes.ArrayBox'>":
          return x._value
      else:
          return x
  \<close>
\<close>

definition get_value :: "pyval \<Rightarrow> error + pyval" where
  "get_value x =
     (if type_str x = ''<class 'autograd.numpy.numpy_boxes.ArrayBox'>''
      then value_attr x
      else Inr x)"

text \<open>
  What an objective returns: a single scalar value, or the tuple \<^verbatim>\<open>(value, gradient)\<close>
  with the gradient an array.
\<close>

datatype obj_out = Single pyval | Pair pyval "fl list"

text \<open>
  The caller's \<^verbatim>\<open>bounds\<close> argument is \<^verbatim>\<open>None\<close> or a list (or tuple) whose entries are
  numbers or pairs \<^verbatim>\<open>(lb, ub)\<close> of numbers. An entry of the parsed \<^verbatim>\<open>self.bounds\<close> is
  either \<^verbatim>\<open>tuple(bounds)\<close>, the whole argument, or one of the caller's entries.
\<close>

datatype bitem = Num fl | Pr fl fl

datatype bound = Whole "bitem list" | Entry bitem

type_synonym addr = nat

record world =
  arrays :: "addr \<Rightarrow> fl list"
  fresh :: addr
  calls :: nat

text \<open>A newly constructed array is placed at an address nothing refers to yet.\<close>

definition new_array :: "fl list \<Rightarrow> world \<Rightarrow> addr \<times> world" where
  "new_array xs w =
     (fresh w, w\<lparr>arrays := (arrays w)(fresh w := xs), fresh := Suc (fresh w)\<rparr>)"

text \<open>
  The mutable attributes of a \<^verbatim>\<open>Minimize\<close> instance. \<^verbatim>\<open>self.objective\<close> and
  \<^verbatim>\<open>self.jac\<close> are fixed at construction and passed to the functions below as
  arguments. \<open>of_last\<close> is \<open>None\<close> as long as the attribute has not been set.
\<close>

record minimize =
  iteration :: int
  of_list :: "pyval list"
  params :: addr
  bounds :: "bound list option"
  Nepochs :: int
  disp_p :: bool
  of_last :: "pyval option"

text \<open>
  Extra positional arguments of the objective; with \<^verbatim>\<open>pass_self\<close> the instance itself is
  appended, and the objective sees the instance's attributes as they are at the call.
\<close>

datatype arg = Arg pyval | Self minimize

type_synonym objective = "fl list \<Rightarrow> arg list \<Rightarrow> obj_out"

datatype jac_mode = JacTrue | JacFun "fl list \<Rightarrow> arg list \<Rightarrow> fl list"

definition ebind :: "error + 'a \<Rightarrow> ('a \<Rightarrow> error + 'b) \<Rightarrow> error + 'b" where
  "ebind m f = (case m of Inl e \<Rightarrow> Inl e | Inr x \<Rightarrow> f x)"

fun emap :: "('a \<Rightarrow> error + 'b) \<Rightarrow> 'a list \<Rightarrow> error + 'b list" where
  "emap f [] = Inr []"
| "emap f (x # xs) = ebind (f x) (\<lambda>y. ebind (emap f xs) (\<lambda>ys. Inr (y # ys)))"

section \<open>Bounds parsing\<close>

definition bounds_msg :: string where
  "bounds_msg =
     CHR 0x27 # ''bounds' should be a list of two elements [lb, ub], or a list of the same length as the number of parameters with tuples (lb, ub)''"

text \<open>
  \<^verbatim>\<open>
  def _parse_bounds(self, bounds):
      if bounds == None:
          return None
      elif len(bounds) == 2:
          return [tuple(bounds) for i in range(self.params.size)]
      elif len(bounds) == self.params.size:
          return bounds
      else:
          raise ValueError("'bounds' should be ...")
  \<close>
\<close>

definition parse_bounds :: "world \<Rightarrow> minimize \<Rightarrow> bitem list option \<Rightarrow> error + bound list option" where
  "parse_bounds w self bnds =
     (case bnds of
        None \<Rightarrow> Inr None
      | Some bs \<Rightarrow>
          if length bs = 2
          then Inr (Some (map (\<lambda>i. Whole bs) [0..<length (arrays w (params self))]))
          else if length bs = length (arrays w (params self))
          then Inr (Some (map Entry bs))
          else Inl (ValueError bounds_msg))"

section \<open>Display\<close>

text \<open>\<^verbatim>\<open>"%4e" % v\<close> needs a float (\<^verbatim>\<open>nan\<close> and \<^verbatim>\<open>inf\<close> are printed as such).\<close>

fun format_e :: "pyval \<Rightarrow> error + unit" where
  "format_e (PyFloat r) = Inr ()"
| "format_e x = Inl TypeError"

text \<open>
  \<^verbatim>\<open>_disp\<close> formats \<^verbatim>\<open>self.of_list[-1]\<close> and prints a line; only the formatting is
  modelled.
\<close>

definition disp :: "minimize \<Rightarrow> error + unit" where
  "disp self =
     (if of_list self = [] then Inl IndexError else format_e (last (of_list self)))"

section \<open>One step of Adam\<close>

text \<open>
  Elementwise operations on two arrays follow NumPy's broadcasting for one
  dimension: equal lengths, or one operand of length 1.
\<close>

definition bcast :: "(fl \<Rightarrow> fl \<Rightarrow> fl) \<Rightarrow> fl list \<Rightarrow> fl list \<Rightarrow> error + fl list" where
  "bcast f xs ys =
     (if length xs = length ys then Inr (map2 f xs ys)
      else if length xs = 1 then Inr (map (f (hd xs)) ys)
      else if length ys = 1 then Inr (map (\<lambda>x. f x (hd ys)) xs)
      else Inl NumpyError)"

definition epsilon_default :: real where
  "epsilon_default = 1 / 10 ^ 8"

text \<open>
  \<^verbatim>\<open>
  def _step_adam(gradient, mopt_old, vopt_old, iteration, beta1, beta2,
                  epsilon=1e-8):
      mopt = beta1 * mopt_old + (1 - beta1) * gradient
      mopt_t = mopt / (1 - beta1**(iteration + 1))
      vopt = beta2 * vopt_old + (1 - beta2) * (np.square(gradient))
      vopt_t = vopt / (1 - beta2**(iteration + 1))
      grad_adam = mopt_t / (np.sqrt(vopt_t) + epsilon)
      return (grad_adam, mopt, vopt)
  \<close>
\<close>

definition step_adam ::
  "fl list \<Rightarrow> fl list \<Rightarrow> fl list \<Rightarrow> nat \<Rightarrow> real \<Rightarrow> real \<Rightarrow> real
     \<Rightarrow> error + (fl list \<times> fl list \<times> fl list)" where
  "step_adam gradient mopt_old vopt_old it beta1 beta2 epsilon =
     ebind (bcast (+) (map (\<lambda>x. Fin beta1 * x) mopt_old)
                      (map (\<lambda>x. Fin (1 - beta1) * x) gradient))
       (\<lambda>mopt.
     let mopt_t = map (\<lambda>x. x / Fin (1 - beta1 ^ (it + 1))) mopt in
     ebind (bcast (+) (map (\<lambda>x. Fin beta2 * x) vopt_old)
                      (map (\<lambda>x. Fin (1 - beta2) * x) (map (\<lambda>x. x * x) gradient)))
       (\<lambda>vopt.
     let vopt_t = map (\<lambda>x. x / Fin (1 - beta2 ^ (it + 1))) vopt in
     ebind (bcast (/) mopt_t (map (\<lambda>x. fl_sqrt x + Fin epsilon) vopt_t))
       (\<lambda>grad_adam.
     Inr (grad_adam, mopt, vopt))))"

section \<open>The Adam driver\<close>

text \<open>\<^verbatim>\<open>b[i]\<close> for an entry \<open>b\<close> of \<^verbatim>\<open>self.bounds\<close>; a float is not subscriptable.\<close>

fun bound_item :: "bound \<Rightarrow> nat \<Rightarrow> error + bitem" where
  "bound_item (Entry (Num r)) i = Inl TypeError"
| "bound_item (Entry (Pr l u)) i =
     (if i = 0 then Inr (Num l) else if i = 1 then Inr (Num u) else Inl IndexError)"
| "bound_item (Whole bs) i = (if i < length bs then Inr (bs ! i) else Inl IndexError)"

text \<open>
  \<^verbatim>\<open>np.array([...])\<close> of the collected entries is a one-dimensional float array
  exactly when every entry is a number.
\<close>

fun float_array :: "bitem list \<Rightarrow> fl list option" where
  "float_array [] = Some []"
| "float_array (Num r # xs) = map_option (\<lambda>rs. r # rs) (float_array xs)"
| "float_array (Pr l u # xs) = None"

text \<open>
  \<^verbatim>\<open>p[p < lbs] = lbs[p < lbs]\<close> and \<^verbatim>\<open>p[p > ubs] = ubs[p > ubs]\<close>, as values. A NaN
  is in neither mask and stays.
\<close>

definition assign_below :: "fl list \<Rightarrow> fl list \<Rightarrow> fl list" where
  "assign_below ps lbs = map2 (\<lambda>p l. if p < l then l else p) ps lbs"

definition assign_above :: "fl list \<Rightarrow> fl list \<Rightarrow> fl list" where
  "assign_above ps ubs = map2 (\<lambda>p u. if u < p then u else p) ps ubs"

text \<open>
  Lines 115 to 118, on the array at address \<open>a\<close> (\<^verbatim>\<open>self.params\<close>):
  \<^verbatim>\<open>
  lbs = np.array([b[0] for b in self.bounds])
  ubs = np.array([b[1] for b in self.bounds])
  self.params[self.params < lbs] = lbs[self.params < lbs]
  self.params[self.params > ubs] = ubs[self.params > ubs]
  \<close>
  Both assignments write into the existing array. A bound array that is not a
  one-dimensional float array of the parameters' length makes NumPy raise in the
  assignment that uses it; a failure in the second assignment comes after the first
  one has written. (\<^verbatim>\<open>self.bounds\<close> is always a result of \<open>parse_bounds\<close>: its entries
  are the caller's own entries, or all the same tuple.)
\<close>

definition snap_to_bounds :: "bound list \<Rightarrow> addr \<Rightarrow> world \<Rightarrow> world \<times> (error + unit)" where
  "snap_to_bounds bs a w =
     (case emap (\<lambda>b. bound_item b 0) bs of
        Inl e \<Rightarrow> (w, Inl e)
      | Inr ls \<Rightarrow>
     (case emap (\<lambda>b. bound_item b 1) bs of
        Inl e \<Rightarrow> (w, Inl e)
      | Inr us \<Rightarrow>
     (case float_array ls of
        None \<Rightarrow> (w, Inl NumpyError)
      | Some lbs \<Rightarrow>
          if length lbs \<noteq> length (arrays w a) then (w, Inl NumpyError)
          else
            let w1 = w\<lparr>arrays := (arrays w)(a := assign_below (arrays w a) lbs)\<rparr> in
            (case float_array us of
               None \<Rightarrow> (w1, Inl NumpyError)
             | Some ubs \<Rightarrow>
                 (w1\<lparr>arrays := (arrays w1)(a := assign_above (arrays w1 a) ubs)\<rparr>, Inr ())))))"

text \<open>
  \<^verbatim>\<open>
  if pass_self == True:
      arglist = list(args); arglist.append(self); args = tuple(arglist)
  \<close>
\<close>

definition call_args :: "bool \<Rightarrow> arg list \<Rightarrow> minimize \<Rightarrow> arg list" where
  "call_args pass_self args self = (if pass_self then args @ [Self self] else args)"

text \<open>
  Lines 94 to 98:
  \<^verbatim>\<open>
  if self.jac==True:
      of, grad = self.objective(self.params, *args)
  else:
      of = self.objective(self.params, *args)
      grad = self.jac(self.params, *args)
  \<close>
  A single scalar cannot be unpacked into two names: \<^verbatim>\<open>None\<close> and a float are not
  iterable, an \<^verbatim>\<open>ArrayBox\<close> yields no value at all. With a gradient function, an objective
  that returns a tuple has that tuple appended to the trace, and the display line
  then fails to format it (\<^verbatim>\<open>TypeError\<close>).
\<close>

text \<open>
  Iterating over a scalar. \<^verbatim>\<open>None\<close> and a float are not iterable. An \<^verbatim>\<open>ArrayBox\<close> has
  \<^verbatim>\<open>__getitem__\<close> and no \<^verbatim>\<open>__iter__\<close>, so it is iterated by subscripting from 0; a boxed
  scalar has no item 0 and the iteration ends at once.
\<close>

fun iterate :: "pyval \<Rightarrow> error + pyval list" where
  "iterate PyNone = Inl TypeError"
| "iterate (PyFloat r) = Inl TypeError"
| "iterate (ArrayBox v) = Inr []"

definition unpack_msg :: string where
  "unpack_msg = ''not enough values to unpack (expected 2, got 0)''"

definition evaluate ::
  "objective \<Rightarrow> jac_mode \<Rightarrow> fl list \<Rightarrow> arg list \<Rightarrow> world \<Rightarrow> world \<times> (error + (pyval \<times> fl list))" where
  "evaluate objective jacm p a w =
     (case jacm of
        JacTrue \<Rightarrow>
          (w\<lparr>calls := calls w + 1\<rparr>,
           case objective p a of
             Pair ofv grad \<Rightarrow> Inr (ofv, grad)
           | Single v \<Rightarrow>
               (case iterate v of
                  Inl e \<Rightarrow> Inl e
                | Inr items \<Rightarrow> Inl (ValueError unpack_msg)))
      | JacFun j \<Rightarrow>
          (w\<lparr>calls := calls w + 2\<rparr>,
           case objective p a of
             Single ofv \<Rightarrow> Inr (ofv, j p a)
           | Pair v g \<Rightarrow> Inl TypeError))"

text \<open>
  Line 112: \<^verbatim>\<open>self.params = self.params - step_size*grad_adam\<close>. The difference is a
  new array; the attribute is rebound to it.
\<close>

definition update_params :: "real \<Rightarrow> fl list \<Rightarrow> minimize \<Rightarrow> world \<Rightarrow> world \<times> (error + minimize)" where
  "update_params step_size grad_adam self w =
     (case bcast (-) (arrays w (params self)) (map (\<lambda>x. Fin step_size * x) grad_adam) of
        Inl e \<Rightarrow> (w, Inl e)
      | Inr ps \<Rightarrow>
          (case new_array ps w of (a, w') \<Rightarrow> (w', Inr (self\<lparr>params := a\<rparr>))))"

text \<open>
  The body of the loop, lines 91 to 118, for the value \<open>it\<close> of the loop variable.
  The loop carries the instance and the two moment arrays. \<open>bnds\<close> is the caller's
  argument, whose truth value line 114 tests; \<open>nepochs\<close> is the argument \<^verbatim>\<open>Nepochs\<close>.
\<close>

definition adam_iteration ::
  "objective \<Rightarrow> jac_mode \<Rightarrow> bitem list option \<Rightarrow> int \<Rightarrow> real \<Rightarrow> real \<Rightarrow> real \<Rightarrow> arg list \<Rightarrow> bool
     \<Rightarrow> nat \<Rightarrow> minimize \<times> fl list \<times> fl list \<Rightarrow> world
     \<Rightarrow> world \<times> (error + (minimize \<times> fl list \<times> fl list))" where
  "adam_iteration objective jacm bnds nepochs step_size beta1 beta2 args pass_self it st w =
     (case st of (self, mopt, vopt) \<Rightarrow>
      let self1 = self\<lparr>iteration := iteration self + 1\<rparr> in
      (case evaluate objective jacm (arrays w (params self1)) (call_args pass_self args self1) w of
         (w1, Inl e) \<Rightarrow> (w1, Inl e)
       | (w1, Inr (ofv, grad)) \<Rightarrow>
      (case get_value ofv of
         Inl e \<Rightarrow> (w1, Inl e)
       | Inr v \<Rightarrow>
      let self2 = self1\<lparr>of_list := of_list self1 @ [v]\<rparr> in
      (case disp self2 of
         Inl e \<Rightarrow> (w1, Inl e)
       | Inr u \<Rightarrow>
      let mopt0 = (if it = 0 then replicate (length grad) (Fin 0) else mopt);
          vopt0 = (if it = 0 then replicate (length grad) (Fin 0) else vopt) in
      (case step_adam grad mopt0 vopt0 it beta1 beta2 epsilon_default of
         Inl e \<Rightarrow> (w1, Inl e)
       | Inr (grad_adam, mopt1, vopt1) \<Rightarrow>
      (case (if int it < nepochs - 1 then update_params step_size grad_adam self2 w1
             else (w1, Inr self2)) of
         (w2, Inl e) \<Rightarrow> (w2, Inl e)
       | (w2, Inr self3) \<Rightarrow>
      (case (if bnds \<noteq> None \<and> bnds \<noteq> Some []
             then (case bounds self3 of
                     None \<Rightarrow> (w2, Inl TypeError)
                   | Some bs \<Rightarrow> snap_to_bounds bs (params self3) w2)
             else (w2, Inr ())) of
         (w3, Inl e) \<Rightarrow> (w3, Inl e)
       | (w3, Inr u') \<Rightarrow> (w3, Inr (self3, mopt1, vopt1)))))))))"

text \<open>\<^verbatim>\<open>for iteration in range(Nepochs): ...\<close>; an exception ends the loop.\<close>

fun adam_loop ::
  "objective \<Rightarrow> jac_mode \<Rightarrow> bitem list option \<Rightarrow> int \<Rightarrow> real \<Rightarrow> real \<Rightarrow> real \<Rightarrow> arg list \<Rightarrow> bool
     \<Rightarrow> nat list \<Rightarrow> minimize \<times> fl list \<times> fl list \<Rightarrow> world
     \<Rightarrow> world \<times> (error + (minimize \<times> fl list \<times> fl list))" where
  "adam_loop objective jacm bnds nepochs step_size beta1 beta2 args pass_self [] st w = (w, Inr st)"
| "adam_loop objective jacm bnds nepochs step_size beta1 beta2 args pass_self (it # its) st w =
     (case adam_iteration objective jacm bnds nepochs step_size beta1 beta2 args pass_self it st w of
        (w', Inl e) \<Rightarrow> (w', Inl e)
      | (w', Inr st') \<Rightarrow>
          adam_loop objective jacm bnds nepochs step_size beta1 beta2 args pass_self its st' w')"

text \<open>
  \<^verbatim>\<open>
  def adam(self, pstart, Nepochs=50, bounds=None, disp_p=False,
           step_size=1e-2, beta1=0.9, beta2=0.999, args=(), pass_self=False):
      self.params = pstart
      self.bounds = self._parse_bounds(bounds)
      self.Nepochs = Nepochs
      self.disp_p = disp_p
      self.iteration = 0
      self.of_list = []
      ...
      for iteration in range(Nepochs): ...
      return (self.params, self.of_list)
  \<close>
  \<open>pstart\<close> is the address of the caller's array: \<^verbatim>\<open>self.params = pstart\<close> binds the
  attribute to that same array. The result is the store, and either the exception
  or the instance after the run with the returned pair. Before the first iteration
  the names \<^verbatim>\<open>mopt\<close> and \<^verbatim>\<open>vopt\<close> are unbound; the iteration with \<open>it = 0\<close>, the first
  of every run, binds them.
\<close>

definition adam ::
  "objective \<Rightarrow> jac_mode \<Rightarrow> minimize \<Rightarrow> world \<Rightarrow> addr \<Rightarrow> int \<Rightarrow> bitem list option \<Rightarrow> bool
     \<Rightarrow> real \<Rightarrow> real \<Rightarrow> real \<Rightarrow> arg list \<Rightarrow> bool
     \<Rightarrow> world \<times> (error + (minimize \<times> addr \<times> pyval list))" where
  "adam objective jacm self w pstart nepochs bnds dispp step_size beta1 beta2 args pass_self =
     (let self1 = self\<lparr>params := pstart\<rparr> in
      case parse_bounds w self1 bnds of
        Inl e \<Rightarrow> (w, Inl e)
      | Inr pb \<Rightarrow>
          let self2 = self1\<lparr>bounds := pb, Nepochs := nepochs, disp_p := dispp,
                            iteration := 0, of_list := []\<rparr> in
          (case adam_loop objective jacm bnds nepochs step_size beta1 beta2 args pass_self
                  [0..<nat nepochs] (self2, [], []) w of
             (w', Inl e) \<Rightarrow> (w', Inl e)
           | (w', Inr (self3, mopt, vopt)) \<Rightarrow> (w', Inr (self3, params self3, of_list self3))))"

section \<open>The L-BFGS-B adapter\<close>

text \<open>
  The closure \<^verbatim>\<open>of\<close> defined inside \<^verbatim>\<open>lbfgs\<close>:
  \<^verbatim>\<open>
  def of(params, *args, **kwargs):
      if pass_self == True:
          arglist = list(args); arglist.append(self); args = tuple(arglist)
      out = list(self.objective(params, *args, **kwargs))
      self.of_last = self._get_value(out[0])
      return tuple(out)
  \<close>
  \<^verbatim>\<open>list(...)\<close> of a tuple \<^verbatim>\<open>(value, gradient)\<close> has the value first, and \<^verbatim>\<open>tuple(out)\<close> is
  that tuple again. For a single \<^verbatim>\<open>None\<close> or float \<^verbatim>\<open>list(...)\<close> raises \<^verbatim>\<open>TypeError\<close>; for a
  single \<^verbatim>\<open>ArrayBox\<close> it is the empty list, and \<^verbatim>\<open>out[0]\<close> raises \<^verbatim>\<open>IndexError\<close>.
\<close>

definition of_wrapper ::
  "objective \<Rightarrow> bool \<Rightarrow> minimize \<Rightarrow> fl list \<Rightarrow> arg list \<Rightarrow> world
     \<Rightarrow> world \<times> (error + (minimize \<times> obj_out))" where
  "of_wrapper objective pass_self self p args w =
     (let w1 = w\<lparr>calls := calls w + 1\<rparr> in
      case objective p (call_args pass_self args self) of
        Single v \<Rightarrow>
          (case iterate v of
             Inl e \<Rightarrow> (w1, Inl e)
           | Inr out \<Rightarrow> (w1, Inl IndexError))
      | Pair ofv grad \<Rightarrow>
          (case get_value ofv of
             Inl e \<Rightarrow> (w1, Inl e)
           | Inr v \<Rightarrow> (w1, Inr (self\<lparr>of_last := Some v\<rparr>, Pair ofv grad))))"

text \<open>
  The closure \<^verbatim>\<open>cb\<close>:
  \<^verbatim>\<open>
  def cb(xk):
      self.iteration += 1
      ...
      self.of_list.append(self.of_last)
      self.params = xk
      self._disp(t_elapsed)
  \<close>
  Reading \<^verbatim>\<open>self.of_last\<close> before any call of \<^verbatim>\<open>of\<close> has set it raises
  \<^verbatim>\<open>AttributeError\<close>.
\<close>

definition cb :: "minimize \<Rightarrow> addr \<Rightarrow> error + minimize" where
  "cb self xk =
     (let self1 = self\<lparr>iteration := iteration self + 1\<rparr> in
      case of_last self1 of
        None \<Rightarrow> Inl AttributeError
      | Some v \<Rightarrow>
          let self2 = self1\<lparr>of_list := of_list self1 @ [v]\<rparr>;
              self3 = self2\<lparr>params := xk\<rparr> in
          (case disp self3 of
             Inl e \<Rightarrow> Inl e
           | Inr u \<Rightarrow> Inr self3))"

text \<open>
  \<^verbatim>\<open>scipy.optimize.minimize\<close> is not part of the module. A run of it is represented
  by the calls it makes, in order: evaluations of \<^verbatim>\<open>of\<close> at an array of the solver, and
  invocations of \<^verbatim>\<open>cb\<close> with an iterate. The run collects what \<^verbatim>\<open>of\<close> returned to the
  solver.
\<close>

datatype event = Eval addr | Callback addr

fun solver_run ::
  "objective \<Rightarrow> bool \<Rightarrow> arg list \<Rightarrow> event list \<Rightarrow> minimize \<Rightarrow> world
     \<Rightarrow> world \<times> (error + (minimize \<times> obj_out list))" where
  "solver_run objective pass_self args [] self w = (w, Inr (self, []))"
| "solver_run objective pass_self args (Eval x # es) self w =
     (case of_wrapper objective pass_self self (arrays w x) args w of
        (w1, Inl e) \<Rightarrow> (w1, Inl e)
      | (w1, Inr (self1, out)) \<Rightarrow>
          (case solver_run objective pass_self args es self1 w1 of
             (w2, Inl e) \<Rightarrow> (w2, Inl e)
           | (w2, Inr (self2, outs)) \<Rightarrow> (w2, Inr (self2, out # outs))))"
| "solver_run objective pass_self args (Callback x # es) self w =
     (case cb self x of
        Inl e \<Rightarrow> (w, Inl e)
      | Inr self1 \<Rightarrow> solver_run objective pass_self args es self1 w)"

text \<open>
  \<^verbatim>\<open>
  def lbfgs(self, pstart, Nepochs=50, bounds=None, disp_p=False,
            maxfun=15000, args=(), pass_self=False, res_store=False):
      self.params = pstart
      self.bounds = self._parse_bounds(bounds)
      self.Nepochs = Nepochs
      self.disp_p = disp_p
      self.iteration = 0
      self.of_list = []
      ...
      res = minimize(of, self.params, args=args, method='L-BFGS-B', jac=self.jac,
                     bounds=self.bounds, tol=None, callback=cb, options={...})
      return (res.x, self.of_list)
  \<close>
  \<open>es\<close> are the calls the solver makes and \<open>res_x\<close> the iterate it reports at the end.
\<close>

definition lbfgs ::
  "objective \<Rightarrow> minimize \<Rightarrow> world \<Rightarrow> addr \<Rightarrow> int \<Rightarrow> bitem list option \<Rightarrow> bool \<Rightarrow> arg list \<Rightarrow> bool
     \<Rightarrow> event list \<Rightarrow> addr \<Rightarrow> world \<times> (error + (minimize \<times> addr \<times> pyval list))" where
  "lbfgs objective self w pstart nepochs bnds dispp args pass_self es res_x =
     (let self1 = self\<lparr>params := pstart\<rparr> in
      case parse_bounds w self1 bnds of
        Inl e \<Rightarrow> (w, Inl e)
      | Inr pb \<Rightarrow>
          let self2 = self1\<lparr>bounds := pb, Nepochs := nepochs, disp_p := dispp,
                            iteration := 0, of_list := []\<rparr> in
          (case solver_run objective pass_self args es self2 w of
             (w', Inl e) \<Rightarrow> (w', Inl e)
           | (w', Inr (self3, outs)) \<Rightarrow> (w', Inr (self3, res_x, of_list self3))))"

section \<open>The Adam update rule as the specification writes it\<close>






section \<open>Inputs for the examples\<close>

text \<open>
  An instance as \<^verbatim>\<open>__init__\<close> leaves it: \<^verbatim>\<open>iteration = 0\<close>, \<^verbatim>\<open>of_list = []\<close>. The attributes
  a run assigns before it reads them hold placeholders; \<^verbatim>\<open>of_last\<close> is not set.
\<close>

definition init :: minimize where
  "init = \<lparr>iteration = 0, of_list = [], params = 0, bounds = None, Nepochs = 0,
           disp_p = False, of_last = None\<rparr>"

text \<open>A store whose only array, at address 0, is \<open>xs\<close>; no call has been made.\<close>

definition one_array :: "fl list \<Rightarrow> world" where
  "one_array xs = \<lparr>arrays = (\<lambda>a. if a = 0 then xs else []), fresh = 1, calls = 0\<rparr>"

text \<open>An objective that is constantly 0, returned with its gradient.\<close>

definition flat :: objective where
  "flat p a = Pair (PyFloat (Fin 0)) (map (\<lambda>x. Fin 0) p)"

text \<open>An objective that returns a bare scalar, for use with a gradient function.\<close>

definition bare :: objective where
  "bare p a = Single (PyFloat (Fin 1))"

text \<open>An objective whose value comes tagged by autograd, returned with a gradient.\<close>

definition boxed :: objective where
  "boxed p a = Pair (ArrayBox (PyFloat (foldr (+) p (Fin 0)))) p"

text \<open>The objective \<open>f(x) = x\<^sub>0 + x\<^sub>1 + ...\<close>, returned with its gradient.\<close>

definition slope :: objective where
  "slope p a = Pair (PyFloat (foldr (+) p (Fin 0))) (map (\<lambda>x. Fin 1) p)"

section \<open>The trace of an L-BFGS-B run as the specification describes it\<close>

text \<open>A scalar unwrapped: the value under the tag of a tagged one, else itself.\<close>

fun unwrapped :: "pyval \<Rightarrow> pyval" where
  "unwrapped (ArrayBox v) = v"
| "unwrapped x = x"

text \<open>The scalar in what an objective returned.\<close>

fun first_value :: "obj_out \<Rightarrow> pyval" where
  "first_value (Pair v g) = v"
| "first_value (Single v) = v"

text \<open>
  One entry per callback: the unwrapped scalar of the most recent objective
  evaluation. \<open>latest\<close> is that scalar, if there has been an evaluation; \<open>outs\<close> are the
  results the solver received from its evaluations, in order.
\<close>

fun expected_trace :: "pyval option \<Rightarrow> event list \<Rightarrow> obj_out list \<Rightarrow> pyval option list" where
  "expected_trace latest [] outs = []"
| "expected_trace latest (Callback x # es) outs = latest # expected_trace latest es outs"
| "expected_trace latest (Eval x # es) (out # outs) =
     expected_trace (Some (unwrapped (first_value out))) es outs"
| "expected_trace latest (Eval x # es) [] = expected_trace latest es []"

fun n_callbacks :: "event list \<Rightarrow> nat" where
  "n_callbacks [] = 0"
| "n_callbacks (Callback x # es) = Suc (n_callbacks es)"
| "n_callbacks (Eval x # es) = n_callbacks es"

fun n_evals :: "event list \<Rightarrow> nat" where
  "n_evals [] = 0"
| "n_evals (Callback x # es) = n_evals es"
| "n_evals (Eval x # es) = Suc (n_evals es)"

text \<open>The iterate of the last callback, or \<open>a\<close> if there was none.\<close>

fun last_iterate :: "addr \<Rightarrow> event list \<Rightarrow> addr" where
  "last_iterate a [] = a"
| "last_iterate a (Callback x # es) = last_iterate x es"
| "last_iterate a (Eval x # es) = last_iterate a es"

section \<open>The Adam driver as the specification describes it\<close>

text \<open>
  One iteration, steps 2a to 2f of the specification: evaluate objective and gradient,
  append the unwrapped value to the trace, initialise the moments on the first
  iteration, compute the Adam update, replace the parameters by
  \<open>params - step_size * update\<close> if this is a \<open>stepping\<close> iteration, clamp to the bounds if
  bounds are configured.
\<close>

definition spec_iteration ::
  "bool \<Rightarrow> objective \<Rightarrow> jac_mode \<Rightarrow> bitem list option \<Rightarrow> real \<Rightarrow> real \<Rightarrow> real \<Rightarrow> arg list \<Rightarrow> bool
     \<Rightarrow> nat \<Rightarrow> minimize \<times> fl list \<times> fl list \<Rightarrow> world
     \<Rightarrow> world \<times> (error + (minimize \<times> fl list \<times> fl list))" where
  "spec_iteration stepping objective jacm bnds step_size beta1 beta2 args pass_self it st w =
     (case st of (self, mopt, vopt) \<Rightarrow>
      let self1 = self\<lparr>iteration := iteration self + 1\<rparr> in
      (case evaluate objective jacm (arrays w (params self1)) (call_args pass_self args self1) w of
         (w1, Inl e) \<Rightarrow> (w1, Inl e)
       | (w1, Inr (ofv, grad)) \<Rightarrow>
      (case get_value ofv of
         Inl e \<Rightarrow> (w1, Inl e)
       | Inr v \<Rightarrow>
      let self2 = self1\<lparr>of_list := of_list self1 @ [v]\<rparr> in
      (case disp self2 of
         Inl e \<Rightarrow> (w1, Inl e)
       | Inr u \<Rightarrow>
      let mopt0 = (if it = 0 then replicate (length grad) (Fin 0) else mopt);
          vopt0 = (if it = 0 then replicate (length grad) (Fin 0) else vopt) in
      (case step_adam grad mopt0 vopt0 it beta1 beta2 epsilon_default of
         Inl e \<Rightarrow> (w1, Inl e)
       | Inr (grad_adam, mopt1, vopt1) \<Rightarrow>
      (case (if stepping then update_params step_size grad_adam self2 w1
             else (w1, Inr self2)) of
         (w2, Inl e) \<Rightarrow> (w2, Inl e)
       | (w2, Inr self3) \<Rightarrow>
      (case (if bnds \<noteq> None \<and> bnds \<noteq> Some []
             then (case bounds self3 of
                     None \<Rightarrow> (w2, Inl TypeError)
                   | Some bs \<Rightarrow> snap_to_bounds bs (params self3) w2)
             else (w2, Inr ())) of
         (w3, Inl e) \<Rightarrow> (w3, Inl e)
       | (w3, Inr u') \<Rightarrow> (w3, Inr (self3, mopt1, vopt1)))))))))"

text \<open>A sequence of iterations that all step.\<close>

fun spec_steps ::
  "objective \<Rightarrow> jac_mode \<Rightarrow> bitem list option \<Rightarrow> real \<Rightarrow> real \<Rightarrow> real \<Rightarrow> arg list \<Rightarrow> bool
     \<Rightarrow> nat list \<Rightarrow> minimize \<times> fl list \<times> fl list \<Rightarrow> world
     \<Rightarrow> world \<times> (error + (minimize \<times> fl list \<times> fl list))" where
  "spec_steps objective jacm bnds step_size beta1 beta2 args pass_self [] st w = (w, Inr st)"
| "spec_steps objective jacm bnds step_size beta1 beta2 args pass_self (it # its) st w =
     (case spec_iteration True objective jacm bnds step_size beta1 beta2 args pass_self it st w of
        (w', Inl e) \<Rightarrow> (w', Inl e)
      | (w', Inr st') \<Rightarrow>
          spec_steps objective jacm bnds step_size beta1 beta2 args pass_self its st' w')"

text \<open>
  A run with budget \<open>Nepochs \<ge> 1\<close>: \<open>Nepochs - 1\<close> iterations that step, then one final
  iteration that evaluates and records without stepping.
\<close>

definition spec_adam ::
  "objective \<Rightarrow> jac_mode \<Rightarrow> minimize \<Rightarrow> world \<Rightarrow> addr \<Rightarrow> int \<Rightarrow> bitem list option \<Rightarrow> bool
     \<Rightarrow> real \<Rightarrow> real \<Rightarrow> real \<Rightarrow> arg list \<Rightarrow> bool
     \<Rightarrow> world \<times> (error + (minimize \<times> addr \<times> pyval list))" where
  "spec_adam objective jacm self w pstart nepochs bnds dispp step_size beta1 beta2 args pass_self =
     (let self1 = self\<lparr>params := pstart\<rparr> in
      case parse_bounds w self1 bnds of
        Inl e \<Rightarrow> (w, Inl e)
      | Inr pb \<Rightarrow>
          let self2 = self1\<lparr>bounds := pb, Nepochs := nepochs, disp_p := dispp,
                            iteration := 0, of_list := []\<rparr> in
          (case spec_steps objective jacm bnds step_size beta1 beta2 args pass_self
                  [0..<nat nepochs - 1] (self2, [], []) w of
             (w1, Inl e) \<Rightarrow> (w1, Inl e)
           | (w1, Inr st1) \<Rightarrow>
               (case spec_iteration False objective jacm bnds step_size beta1 beta2 args pass_self
                       (nat nepochs - 1) st1 w1 of
                  (w', Inl e) \<Rightarrow> (w', Inl e)
                | (w', Inr (self3, mopt, vopt)) \<Rightarrow>
                    (w', Inr (self3, params self3, of_list self3)))))"

section \<open>Bounds as intervals\<close>

text \<open>
  The pair \<open>(b[0], b[1])\<close> of an entry of \<^verbatim>\<open>self.bounds\<close> when both are numbers, the
  condition \<open>lb \<le> ub\<close> on it, and membership of a parameter in \<open>[lb, ub]\<close>.
\<close>

definition pair_of :: "bound \<Rightarrow> (fl \<times> fl) option" where
  "pair_of b =
     (case (bound_item b 0, bound_item b 1) of
        (Inr (Num l), Inr (Num u)) \<Rightarrow> Some (l, u)
      | _ \<Rightarrow> None)"

definition ordered :: "bound \<Rightarrow> bool" where
  "ordered b = (case pair_of b of Some (l, u) \<Rightarrow> l \<le> u | None \<Rightarrow> True)"

definition inside :: "bound \<Rightarrow> fl \<Rightarrow> bool" where
  "inside b p = (case pair_of b of Some (l, u) \<Rightarrow> l \<le> p \<and> p \<le> u | None \<Rightarrow> False)"

text \<open>
  Hard projection, as the specification words it: a parameter below \<open>lb\<close> is set to \<open>lb\<close>,
  one above \<open>ub\<close> is set to \<open>ub\<close>, every other stays.
\<close>

definition project :: "bound \<Rightarrow> fl \<Rightarrow> fl" where
  "project b p =
     (case pair_of b of
        Some (l, u) \<Rightarrow> if p < l then l else if u < p then u else p
      | None \<Rightarrow> p)"

text \<open>What the loop establishes for a parameter: it is NaN or inside its interval.\<close>

definition nan_or_inside :: "bound \<Rightarrow> fl \<Rightarrow> bool" where
  "nan_or_inside b p = (p = NaN \<or> inside b p)"

section \<open>Properties\<close>

subsection \<open>Helper facts\<close>


text \<open>The order on \<open>fl\<close>: what \<open>lb \<le> ub\<close> gives, and what two failed comparisons give.\<close>

lemma fl_le_not_less: "(l::fl) \<le> u \<Longrightarrow> \<not> u < l"
  by (cases l; cases u) auto

lemma fl_le_refl: "(l::fl) \<le> u \<Longrightarrow> l \<le> l \<and> u \<le> u"
  by (cases l; cases u) auto

lemma fl_between:
  "\<not> (p::fl) < l \<Longrightarrow> \<not> u < p \<Longrightarrow> l \<le> u \<Longrightarrow> p = NaN \<or> (l \<le> p \<and> p \<le> u)"
  by (cases p; cases l; cases u) auto

subsection \<open>The step function\<close>



subsection \<open>The value-unwrap utility\<close>

text \<open>
  C8, amended. \<^verbatim>\<open>_get_value\<close> returns its argument unchanged when the argument is not an
  autograd \<^verbatim>\<open>ArrayBox\<close>, and its \<^verbatim>\<open>_value\<close> when it is one: it strips one tag, so the result
  is the concrete number when the box holds a number.
\<close>

theorem get_value_strips_one_tag:
  "(type_str x \<noteq> ''<class 'autograd.numpy.numpy_boxes.ArrayBox'>'' \<longrightarrow> get_value x = Inr x)
   \<and> (type_str x = ''<class 'autograd.numpy.numpy_boxes.ArrayBox'>'' \<longrightarrow>
        (\<exists>v. x = ArrayBox v \<and> get_value x = Inr v))
   \<and> get_value (ArrayBox (PyFloat r)) = Inr (PyFloat r)"
  by (cases x) (simp_all add: get_value_def)

theorem get_value_witness:
  "get_value (PyFloat (Fin 3)) = Inr (PyFloat (Fin 3)) \<and> get_value PyNone = Inr PyNone
   \<and> get_value (ArrayBox (PyFloat (Fin 3))) = Inr (PyFloat (Fin 3))
   \<and> get_value (ArrayBox (PyFloat NaN)) = Inr (PyFloat NaN)"
  using get_value_strips_one_tag [of "PyFloat (Fin 3)" "Fin 3"]
        get_value_strips_one_tag [of "PyNone" NaN]
        get_value_strips_one_tag [of "ArrayBox (PyFloat (Fin 3))" "Fin 3"]
  by simp

text \<open>
  C8 as stated promises the concrete number for every tagged value; for a box whose
  \<^verbatim>\<open>_value\<close> is again a box the result is that inner box, still tagged.
\<close>

theorem get_value_nested_box:
  "get_value (ArrayBox (ArrayBox (PyFloat (Fin 1)))) = Inr (ArrayBox (PyFloat (Fin 1)))
   \<and> type_str (ArrayBox (PyFloat (Fin 1))) = ''<class 'autograd.numpy.numpy_boxes.ArrayBox'>''
   \<and> ArrayBox (PyFloat (Fin 1)) \<noteq> PyFloat (Fin 1)"
  by (simp add: get_value_def)

subsection \<open>Bounds parsing\<close>

text \<open>
  The four outcomes of \<^verbatim>\<open>_parse_bounds\<close>, \<open>n\<close> the number of parameters: no bounds; one
  tuple per parameter for a two-element argument; the caller's entries for an argument
  of length \<open>n \<noteq> 2\<close>; the \<^verbatim>\<open>ValueError\<close> for every other length.
\<close>

lemma parse_bounds_None: "parse_bounds w self None = Inr None"
  by (simp add: parse_bounds_def)

lemma parse_bounds_two:
  "length bs = 2 \<Longrightarrow>
   parse_bounds w self (Some bs) = Inr (Some (replicate (length (arrays w (params self))) (Whole bs)))"
  by (simp add: parse_bounds_def map_replicate_const)

lemma parse_bounds_full:
  "length bs \<noteq> 2 \<Longrightarrow> length bs = length (arrays w (params self)) \<Longrightarrow>
   parse_bounds w self (Some bs) = Inr (Some (map Entry bs))"
  by (simp add: parse_bounds_def)

lemma parse_bounds_other:
  "length bs \<noteq> 2 \<Longrightarrow> length bs \<noteq> length (arrays w (params self)) \<Longrightarrow>
   parse_bounds w self (Some bs) = Inl (ValueError bounds_msg)"
  by (simp add: parse_bounds_def)

text \<open>
  Both drivers parse the bounds before anything else happens: when parsing raises, the
  store is as before (no call of the objective, no array written).
\<close>

lemma drivers_reject_bounds:
  assumes "parse_bounds w (self\<lparr>params := pstart\<rparr>) bnds = Inl e"
  shows "adam objective jacm self w pstart nepochs bnds dispp step_size beta1 beta2 args pass_self
           = (w, Inl e)"
    and "lbfgs objective self w pstart nepochs bnds dispp args pass_self es res_x = (w, Inl e)"
  using assms by (simp_all add: adam_def lbfgs_def)

text \<open>
  C10. The test for two elements comes first: with exactly two parameters, every
  two-element \<^verbatim>\<open>bounds\<close>, a list of two pairs included, is read as one pair for all
  parameters. The result is \<^verbatim>\<open>tuple(bounds)\<close> once per parameter, never the caller's
  list itself.
\<close>

theorem parse_bounds_two_elements_take_precedence:
  assumes "length bs = 2" and "length (arrays w (params self)) = 2"
  shows "parse_bounds w self (Some bs) = Inr (Some [Whole bs, Whole bs])
         \<and> parse_bounds w self (Some bs) \<noteq> Inr (Some (map Entry bs))"
  using assms by (auto simp add: parse_bounds_def numeral_2_eq_2 upt_rec)

theorem parse_bounds_precedence_witness:
  "length [Pr (Fin 0) (Fin 1), Pr (Fin 2) (Fin 3)] = 2 \<and>
   parse_bounds (one_array [Fin 5, Fin 5]) init (Some [Pr (Fin 0) (Fin 1), Pr (Fin 2) (Fin 3)])
     = Inr (Some [Whole [Pr (Fin 0) (Fin 1), Pr (Fin 2) (Fin 3)], Whole [Pr (Fin 0) (Fin 1), Pr (Fin 2) (Fin 3)]])"
  using parse_bounds_two_elements_take_precedence [of "[Pr (Fin 0) (Fin 1), Pr (Fin 2) (Fin 3)]" "one_array [Fin 5, Fin 5]" init]
  by (simp add: one_array_def init_def)

text \<open>
  C3, at two parameters with one pair per parameter, \<^verbatim>\<open>bounds = [(0, 1), (2, 3)]\<close>:
  the parsed bounds are not the caller's list, they are the whole list twice, and the
  Adam driver then fails in the first masked assignment.
\<close>

theorem parse_bounds_per_parameter_pairs_of_two:
  "parse_bounds (one_array [Fin 5, Fin 5]) init (Some [Pr (Fin 0) (Fin 1), Pr (Fin 2) (Fin 3)])
     = Inr (Some [Whole [Pr (Fin 0) (Fin 1), Pr (Fin 2) (Fin 3)], Whole [Pr (Fin 0) (Fin 1), Pr (Fin 2) (Fin 3)]])
   \<and> snd (adam flat JacTrue init (one_array [Fin 5, Fin 5]) 0 3 (Some [Pr (Fin 0) (Fin 1), Pr (Fin 2) (Fin 3)]) False
             (1/100) (9/10) (999/1000) [] False) = Inl NumpyError"
  by (simp add: parse_bounds_def one_array_def init_def adam_def adam_iteration_def evaluate_def
        flat_def get_value_def disp_def step_adam_def bcast_def ebind_def epsilon_default_def
        update_params_def minus_fl_def new_array_def snap_to_bounds_def call_args_def upt_rec Let_def)

subsection \<open>The Adam driver\<close>

text \<open>
  C7. With \<^verbatim>\<open>Nepochs = 0\<close> and bounds that parse, the Adam driver runs no iteration: the
  store is as before (no array written, no call of the objective or the gradient
  function), and the result is the starting array with an empty trace.
\<close>

theorem adam_zero_epochs:
  assumes "parse_bounds w (self\<lparr>params := pstart\<rparr>) bnds = Inr pb"
  shows "adam objective jacm self w pstart 0 bnds dispp step_size beta1 beta2 args pass_self =
           (w, Inr (self\<lparr>params := pstart, bounds := pb, Nepochs := 0, disp_p := dispp,
                        iteration := 0, of_list := []\<rparr>, pstart, []))"
  using assms by (simp add: adam_def)

theorem adam_zero_epochs_witness:
  "adam flat JacTrue init (one_array [Fin 3, Fin 4]) 0 0 (Some [Num (Fin 0), Num (Fin 1)]) False
        (1/100) (9/10) (999/1000) [] False =
     (one_array [Fin 3, Fin 4],
      Inr (init\<lparr>params := 0, bounds := Some [Whole [Num (Fin 0), Num (Fin 1)], Whole [Num (Fin 0), Num (Fin 1)]],
                Nepochs := 0, disp_p := False, iteration := 0, of_list := []\<rparr>, 0, []))"
proof -
  have "parse_bounds (one_array [Fin 3, Fin 4]) (init\<lparr>params := 0\<rparr>) (Some [Num (Fin 0), Num (Fin 1)])
          = Inr (Some [Whole [Num (Fin 0), Num (Fin 1)], Whole [Num (Fin 0), Num (Fin 1)]])"
    by (simp add: parse_bounds_def one_array_def upt_rec)
  from adam_zero_epochs [OF this] show ?thesis .
qed

subsection \<open>The L-BFGS-B adapter\<close>

text \<open>
  C5, for an objective that returns a bare scalar (the mode with a separate gradient
  function): the wrapper calls the objective once and raises \<^verbatim>\<open>TypeError\<close>; nothing is
  stored and nothing is returned to the solver.
\<close>

theorem of_wrapper_bare_scalar:
  "of_wrapper bare False init [Fin 3, Fin 4] [] (one_array [Fin 3, Fin 4])
     = ((one_array [Fin 3, Fin 4])\<lparr>calls := 1\<rparr>, Inl TypeError)"
  by (simp add: of_wrapper_def bare_def call_args_def one_array_def)

subsection \<open>The callback of the L-BFGS-B adapter\<close>

lemma get_value_unwrapped: "get_value x = Inr (unwrapped x)"
  by (cases x) (simp_all add: get_value_def)

lemma cb_Inr:
  assumes "cb self xk = Inr self'"
  shows "\<exists>v. of_last self = Some v \<and> self' = self\<lparr>iteration := iteration self + 1,
            of_list := of_list self @ [v], params := xk\<rparr>"
  using assms by (auto simp add: cb_def Let_def split: option.splits sum.splits)

lemma of_wrapper_Inr:
  assumes "of_wrapper objective pass_self self p args w = (w1, Inr (self1, out))"
  shows "w1 = w\<lparr>calls := calls w + 1\<rparr> \<and> out = objective p (call_args pass_self args self)
         \<and> self1 = self\<lparr>of_last := Some (unwrapped (first_value out))\<rparr>"
proof (cases "objective p (call_args pass_self args self)")
  case (Single v)
  with assms show ?thesis by (simp add: of_wrapper_def Let_def split: sum.splits)
next
  case (Pair ofv grad)
  show ?thesis using assms by (auto simp add: of_wrapper_def Let_def get_value_unwrapped Pair)
qed

lemma solver_run_trace:
  "solver_run objective pass_self args es self w = (w', Inr (self', outs)) \<Longrightarrow>
     map Some (of_list self') = map Some (of_list self) @ expected_trace (of_last self) es outs
     \<and> length (of_list self') = length (of_list self) + n_callbacks es
     \<and> iteration self' = iteration self + int (n_callbacks es)
     \<and> params self' = last_iterate (params self) es
     \<and> calls w' = calls w + n_evals es
     \<and> length outs = n_evals es"
proof (induction es arbitrary: self w outs)
  case Nil
  then show ?case by simp
next
  case (Cons e es)
  show ?case
  proof (cases e)
    case (Eval x)
    with Cons.prems obtain w1 self1 out outs1 where
      a: "of_wrapper objective pass_self self (arrays w x) args w = (w1, Inr (self1, out))" and
      b: "solver_run objective pass_self args es self1 w1 = (w', Inr (self', outs1))" and
      c: "outs = out # outs1"
      by (auto split: prod.splits sum.splits)
    from of_wrapper_Inr [OF a] Cons.IH [OF b] show ?thesis
      by (simp add: Eval c)
  next
    case (Callback x)
    with Cons.prems obtain self1 where
      a: "cb self x = Inr self1" and
      b: "solver_run objective pass_self args es self1 w = (w', Inr (self', outs))"
      by (auto split: sum.splits)
    from cb_Inr [OF a] obtain v where v: "of_last self = Some v"
      and s1: "self1 = self\<lparr>iteration := iteration self + 1, of_list := of_list self @ [v], params := x\<rparr>"
      by blast
    from Cons.IH [OF b] show ?thesis
      by (simp add: Callback s1 v)
  qed
qed

text \<open>
  C6. Every invocation of the callback that returns appends one entry to the trace,
  the scalar stored by the wrapper, adds one to the iteration counter and binds
  \<^verbatim>\<open>self.params\<close> to the reported iterate; it evaluates nothing. In a run of \<^verbatim>\<open>lbfgs\<close> that
  returns, the trace holds, per callback, the unwrapped scalar of the most recent
  evaluation, its length is the number of callbacks, and the objective has been
  called once per evaluation the solver asked for.
\<close>

theorem callbacks_record_latest_evaluation:
  "(\<forall>s xk s'. cb s xk = Inr s' \<longrightarrow>
       (\<exists>v. of_last s = Some v \<and> of_list s' = of_list s @ [v])
       \<and> iteration s' = iteration s + 1 \<and> params s' = xk \<and> of_last s' = of_last s)
   \<and> (lbfgs objective self w pstart nepochs bnds dispp args pass_self es res_x
          = (w', Inr (self', x, tr)) \<longrightarrow>
       (\<exists>pb outs.
           solver_run objective pass_self args es
             (self\<lparr>params := pstart, bounds := pb, Nepochs := nepochs, disp_p := dispp,
                    iteration := 0, of_list := []\<rparr>) w = (w', Inr (self', outs))
           \<and> map Some tr = expected_trace (of_last self) es outs)
       \<and> tr = of_list self'
       \<and> length tr = n_callbacks es
       \<and> iteration self' = int (n_callbacks es)
       \<and> params self' = last_iterate pstart es
       \<and> calls w' = calls w + n_evals es)"
proof (intro conjI allI impI)
  fix s xk s' assume "cb s xk = Inr s'"
  from cb_Inr [OF this] obtain v where "of_last s = Some v"
    and "s' = s\<lparr>iteration := iteration s + 1, of_list := of_list s @ [v], params := xk\<rparr>"
    by blast
  then show "\<exists>v. of_last s = Some v \<and> of_list s' = of_list s @ [v]"
    and "iteration s' = iteration s + 1" and "params s' = xk" and "of_last s' = of_last s"
    by simp_all
next
  assume run: "lbfgs objective self w pstart nepochs bnds dispp args pass_self es res_x
          = (w', Inr (self', x, tr))"
  then obtain pb outs where
    r: "solver_run objective pass_self args es
             (self\<lparr>params := pstart, bounds := pb, Nepochs := nepochs, disp_p := dispp,
                    iteration := 0, of_list := []\<rparr>) w = (w', Inr (self', outs))"
    and t: "tr = of_list self'"
    by (auto simp add: lbfgs_def Let_def split: sum.splits prod.splits)
  from solver_run_trace [OF r] have
    f: "map Some (of_list self') = expected_trace (of_last self) es outs"
       "length (of_list self') = n_callbacks es"
       "iteration self' = int (n_callbacks es)"
       "params self' = last_iterate pstart es"
       "calls w' = calls w + n_evals es"
    by simp_all
  show "\<exists>pb outs.
           solver_run objective pass_self args es
             (self\<lparr>params := pstart, bounds := pb, Nepochs := nepochs, disp_p := dispp,
                    iteration := 0, of_list := []\<rparr>) w = (w', Inr (self', outs))
           \<and> map Some tr = expected_trace (of_last self) es outs"
    using r f(1) t by blast
  show "tr = of_list self'" by (rule t)
  show "length tr = n_callbacks es" using f(2) t by simp
  show "iteration self' = int (n_callbacks es)" by (rule f(3))
  show "params self' = last_iterate pstart es" by (rule f(4))
  show "calls w' = calls w + n_evals es" by (rule f(5))
qed

theorem callbacks_witness:
  "cb (init\<lparr>of_last := Some (PyFloat (Fin 2))\<rparr>) 5
     = Inr (init\<lparr>of_last := Some (PyFloat (Fin 2)), iteration := 1, of_list := [PyFloat (Fin 2)], params := 5\<rparr>)
   \<and> lbfgs boxed init (one_array [Fin 3, Fin 4]) 0 50 None False [] False [Eval 0, Callback 0] 0
     = ((one_array [Fin 3, Fin 4])\<lparr>calls := 1\<rparr>,
        Inr (init\<lparr>Nepochs := 50, of_last := Some (PyFloat (Fin 7)), iteration := 1,
                  of_list := [PyFloat (Fin 7)]\<rparr>, 0, [PyFloat (Fin 7)]))
   \<and> length [PyFloat (Fin 7)] = n_callbacks [Eval 0, Callback 0]
   \<and> expected_trace None [Eval 0, Callback 0] [Pair (ArrayBox (PyFloat (Fin 7))) [Fin 3, Fin 4]] = [Some (PyFloat (Fin 7))]"
proof -
  have a: "cb (init\<lparr>of_last := Some (PyFloat (Fin 2))\<rparr>) 5
     = Inr (init\<lparr>of_last := Some (PyFloat (Fin 2)), iteration := 1, of_list := [PyFloat (Fin 2)], params := 5\<rparr>)"
    by (simp add: cb_def init_def disp_def)
  have b: "lbfgs boxed init (one_array [Fin 3, Fin 4]) 0 50 None False [] False [Eval 0, Callback 0] 0
     = ((one_array [Fin 3, Fin 4])\<lparr>calls := 1\<rparr>,
        Inr (init\<lparr>Nepochs := 50, of_last := Some (PyFloat (Fin 7)), iteration := 1,
                  of_list := [PyFloat (Fin 7)]\<rparr>, 0, [PyFloat (Fin 7)]))"
    by (simp add: lbfgs_def parse_bounds_def of_wrapper_def cb_def init_def disp_def boxed_def
          one_array_def call_args_def get_value_def)
  from a b callbacks_record_latest_evaluation
    [of boxed init "one_array [Fin 3, Fin 4]" 0 50 None False "[]" False "[Eval 0, Callback 0]" 0
        "(one_array [Fin 3, Fin 4])\<lparr>calls := 1\<rparr>"
        "init\<lparr>Nepochs := 50, of_last := Some (PyFloat (Fin 7)), iteration := 1, of_list := [PyFloat (Fin 7)]\<rparr>"
        0 "[PyFloat (Fin 7)]"]
  show ?thesis by simp
qed

subsection \<open>The iterations of the Adam driver\<close>

lemma adam_iteration_spec:
  "adam_iteration objective jacm bnds nepochs step_size beta1 beta2 args pass_self it st w =
     spec_iteration (int it < nepochs - 1) objective jacm bnds step_size beta1 beta2 args pass_self it st w"
  by (simp add: adam_iteration_def spec_iteration_def)

lemma adam_loop_append:
  "adam_loop objective jacm bnds nepochs step_size beta1 beta2 args pass_self (its @ jts) st w =
     (case adam_loop objective jacm bnds nepochs step_size beta1 beta2 args pass_self its st w of
        (w', Inl e) \<Rightarrow> (w', Inl e)
      | (w', Inr st') \<Rightarrow>
          adam_loop objective jacm bnds nepochs step_size beta1 beta2 args pass_self jts st' w')"
  by (induction its arbitrary: st w) (auto split: prod.splits sum.splits)

lemma adam_loop_stepping:
  "(\<And>it. it \<in> set its \<Longrightarrow> int it < nepochs - 1) \<Longrightarrow>
   adam_loop objective jacm bnds nepochs step_size beta1 beta2 args pass_self its st w =
     spec_steps objective jacm bnds step_size beta1 beta2 args pass_self its st w"
  by (induction its arbitrary: st w) (auto simp add: adam_iteration_spec split: prod.splits sum.splits)

lemma update_params_Inr:
  assumes "update_params step_size grad_adam self w = (w', Inr self')"
  shows "self' = self\<lparr>params := fresh w\<rparr> \<and> fresh w' = Suc (fresh w) \<and> calls w' = calls w
         \<and> (\<forall>x. x \<noteq> fresh w \<longrightarrow> arrays w' x = arrays w x)"
  using assms by (auto simp add: update_params_def minus_fl_def new_array_def split: sum.splits)

lemma update_params_Inl:
  assumes "update_params step_size grad_adam self w = (w', Inl e)"
  shows "w' = w"
  using assms by (auto simp add: update_params_def minus_fl_def new_array_def split: sum.splits)

lemma snap_to_bounds_frame:
  assumes "snap_to_bounds bs a w = (w', r)"
  shows "fresh w' = fresh w \<and> calls w' = calls w \<and> (\<forall>x. x \<noteq> a \<longrightarrow> arrays w' x = arrays w x)"
  using assms
  by (auto simp add: snap_to_bounds_def Let_def split: sum.splits option.splits if_splits)

lemma evaluate_frame:
  assumes "evaluate objective jacm p a w = (w', r)"
  shows "fresh w' = fresh w \<and> arrays w' = arrays w"
  using assms by (auto simp add: evaluate_def split: jac_mode.splits)

lemma spec_iteration_Inr:
  assumes "spec_iteration d objective jacm bnds step_size beta1 beta2 args pass_self it (self, m, v) w
             = (w', Inr (self', m', v'))"
  shows "length (of_list self') = Suc (length (of_list self))
         \<and> iteration self' = iteration self + 1
         \<and> fresh w' = fresh w + (if d then 1 else 0)
         \<and> params self' = (if d then fresh w else params self)
         \<and> bounds self' = bounds self"
proof -
  from assms obtain w1 ofv grad val ga w2 self3 where
    ev: "evaluate objective jacm (arrays w (params self))
           (call_args pass_self args (self\<lparr>iteration := iteration self + 1\<rparr>)) w = (w1, Inr (ofv, grad))"
    and up: "(if d then update_params step_size ga
                 (self\<lparr>iteration := iteration self + 1, of_list := of_list self @ [val]\<rparr>) w1
             else (w1, Inr (self\<lparr>iteration := iteration self + 1, of_list := of_list self @ [val]\<rparr>)))
             = (w2, Inr self3)"
    and sn: "(if bnds \<noteq> None \<and> bnds \<noteq> Some []
             then (case bounds self3 of
                     None \<Rightarrow> (w2, Inl TypeError)
                   | Some bs \<Rightarrow> snap_to_bounds bs (params self3) w2)
             else (w2, Inr ())) = (w', Inr ())"
    and s': "self' = self3"
    by (auto simp add: spec_iteration_def Let_def split: prod.splits sum.splits)
  from evaluate_frame [OF ev] have f1: "fresh w1 = fresh w" by simp
  have f2: "fresh w2 = fresh w1 + (if d then 1 else 0)"
    and p: "self3 = (self\<lparr>iteration := iteration self + 1, of_list := of_list self @ [val]\<rparr>)
                    \<lparr>params := (if d then fresh w1 else params self)\<rparr>"
    using up by (auto dest: update_params_Inr split: if_splits)
  have f3: "fresh w' = fresh w2"
    using sn by (auto dest: snap_to_bounds_frame split: if_splits option.splits)
  show ?thesis using f1 f2 f3 p s' by simp
qed

lemma spec_steps_Inr:
  "spec_steps objective jacm bnds step_size beta1 beta2 args pass_self its (self, m, v) w
             = (w', Inr (self', m', v')) \<Longrightarrow>
   length (of_list self') = length (of_list self) + length its
   \<and> iteration self' = iteration self + int (length its)
   \<and> fresh w' = fresh w + length its"
proof (induction its arbitrary: self m v w)
  case Nil
  then show ?case by simp
next
  case (Cons it its)
  from Cons.prems obtain w1 self1 m1 v1 where
    a: "spec_iteration True objective jacm bnds step_size beta1 beta2 args pass_self it (self, m, v) w
          = (w1, Inr (self1, m1, v1))" and
    b: "spec_steps objective jacm bnds step_size beta1 beta2 args pass_self its (self1, m1, v1) w1
          = (w', Inr (self', m', v'))"
    by (auto split: prod.splits sum.splits)
  from spec_iteration_Inr [OF a] Cons.IH [OF b] show ?case by simp
qed

text \<open>
  C2. With \<open>Nepochs \<ge> 1\<close> the Adam driver is the run the specification describes:
  \<open>Nepochs - 1\<close> iterations that evaluate, record, compute the update and apply it, then
  a last one that evaluates, records and computes the update without applying it
  (clamping follows in every iteration). A run that returns has recorded \<open>Nepochs\<close>
  objective values and has constructed \<open>Nepochs - 1\<close> new parameter arrays.
\<close>

theorem adam_steps_all_but_last:
  assumes "1 \<le> nepochs"
  shows "adam objective jacm self w pstart nepochs bnds dispp step_size beta1 beta2 args pass_self
           = spec_adam objective jacm self w pstart nepochs bnds dispp step_size beta1 beta2 args pass_self
         \<and> (adam objective jacm self w pstart nepochs bnds dispp step_size beta1 beta2 args pass_self
               = (w', Inr (self', a, tr)) \<longrightarrow>
             length tr = nat nepochs \<and> iteration self' = nepochs
             \<and> fresh w' = fresh w + (nat nepochs - 1))"
proof -
  define n where "n = nat nepochs - 1"
  from assms have nn: "nat nepochs = Suc n" and last: "\<not> int n < nepochs - 1"
    and before: "\<And>it. it < n \<Longrightarrow> int it < nepochs - 1"
    by (simp_all add: n_def)
  have steps: "adam_loop objective jacm bnds nepochs step_size beta1 beta2 args pass_self [0..<n] st u
                = spec_steps objective jacm bnds step_size beta1 beta2 args pass_self [0..<n] st u"
    for st u
    by (rule adam_loop_stepping) (simp add: before)
  have loop: "adam_loop objective jacm bnds nepochs step_size beta1 beta2 args pass_self
                [0..<nat nepochs] st u =
              (case spec_steps objective jacm bnds step_size beta1 beta2 args pass_self [0..<n] st u of
                 (w1, Inl e) \<Rightarrow> (w1, Inl e)
               | (w1, Inr st1) \<Rightarrow>
                   (case spec_iteration False objective jacm bnds step_size beta1 beta2 args pass_self
                           n st1 w1 of
                      (w2, Inl e) \<Rightarrow> (w2, Inl e)
                    | (w2, Inr st2) \<Rightarrow> (w2, Inr st2)))" for st u
    unfolding nn upt_Suc_append [OF le0] adam_loop_append steps
    by (simp add: adam_iteration_spec last split: prod.splits sum.splits)
  have eq: "adam objective jacm self w pstart nepochs bnds dispp step_size beta1 beta2 args pass_self
           = spec_adam objective jacm self w pstart nepochs bnds dispp step_size beta1 beta2 args pass_self"
    unfolding adam_def spec_adam_def loop Let_def n_def
    by (auto split: prod.splits sum.splits)
  have facts: "length tr = nat nepochs \<and> iteration self' = nepochs
             \<and> fresh w' = fresh w + (nat nepochs - 1)"
    if run: "adam objective jacm self w pstart nepochs bnds dispp step_size beta1 beta2 args pass_self
               = (w', Inr (self', a, tr))"
  proof -
    from run [unfolded eq] obtain pb w1 self1 m1 v1 m v where
      st: "spec_steps objective jacm bnds step_size beta1 beta2 args pass_self [0..<n]
             (self\<lparr>params := pstart, bounds := pb, Nepochs := nepochs, disp_p := dispp,
                    iteration := 0, of_list := []\<rparr>, [], []) w = (w1, Inr (self1, m1, v1))"
      and fin: "spec_iteration False objective jacm bnds step_size beta1 beta2 args pass_self
                  n (self1, m1, v1) w1 = (w', Inr (self', m, v))"
      and tr: "tr = of_list self'"
      by (auto simp add: spec_adam_def Let_def n_def split: prod.splits sum.splits)
    have "int n + 1 = nepochs" and "nat nepochs - 1 = n"
      using assms by (simp_all add: n_def)
    with spec_steps_Inr [OF st] spec_iteration_Inr [OF fin] tr nn show ?thesis
      by simp
  qed
  from eq facts show ?thesis by blast
qed

lemma adam_slope_two_epochs:
  "adam slope JacTrue init (one_array [Fin 3, Fin 4]) 0 2 None False (1/100) (9/10) (999/1000) [] False =
     ((one_array [Fin 3, Fin 4])\<lparr>arrays := (arrays (one_array [Fin 3, Fin 4]))
                                       (1 := [Fin (299000003 / 100000001), Fin (399000004 / 100000001)]),
                          fresh := 2, calls := 2\<rparr>,
      Inr (init\<lparr>params := 1, bounds := None, Nepochs := 2, disp_p := False,
                iteration := 2, of_list := [PyFloat (Fin 7), PyFloat (Fin (698000007 / 100000001))]\<rparr>,
           1, [PyFloat (Fin 7), PyFloat (Fin (698000007 / 100000001))]))"
  by (simp add: adam_def parse_bounds_def one_array_def init_def adam_iteration_def evaluate_def
        slope_def get_value_def disp_def step_adam_def bcast_def ebind_def epsilon_default_def
        update_params_def minus_fl_def new_array_def call_args_def upt_rec Let_def)

theorem adam_steps_all_but_last_witness:
  "(1::int) \<le> 2
   \<and> spec_adam slope JacTrue init (one_array [Fin 3, Fin 4]) 0 2 None False (1/100) (9/10) (999/1000) [] False =
     ((one_array [Fin 3, Fin 4])\<lparr>arrays := (arrays (one_array [Fin 3, Fin 4]))
                                       (1 := [Fin (299000003 / 100000001), Fin (399000004 / 100000001)]),
                          fresh := 2, calls := 2\<rparr>,
      Inr (init\<lparr>params := 1, bounds := None, Nepochs := 2, disp_p := False,
                iteration := 2, of_list := [PyFloat (Fin 7), PyFloat (Fin (698000007 / 100000001))]\<rparr>,
           1, [PyFloat (Fin 7), PyFloat (Fin (698000007 / 100000001))]))
   \<and> length [PyFloat (Fin 7), PyFloat (Fin (698000007 / 100000001))] = nat 2"
  using adam_steps_all_but_last [of 2 slope JacTrue init "one_array [Fin 3, Fin 4]" 0 None False
          "1/100" "9/10" "999/1000" "[]" False]
        adam_slope_two_epochs
  by simp

subsection \<open>Clamping to the bounds\<close>

lemma emap_Inr:
  "emap f xs = Inr ys \<Longrightarrow> length ys = length xs \<and> (\<forall>i<length xs. f (xs ! i) = Inr (ys ! i))"
proof (induction xs arbitrary: ys)
  case Nil
  then show ?case by simp
next
  case (Cons x xs)
  from Cons.prems obtain y ys' where y: "f x = Inr y" and ys': "emap f xs = Inr ys'"
    and ys: "ys = y # ys'"
    by (auto simp add: ebind_def split: sum.splits)
  from Cons.IH [OF ys'] y ys show ?case
    by (auto simp add: nth_Cons split: nat.splits)
qed

lemma float_array_Some: "float_array xs = Some rs \<Longrightarrow> xs = map Num rs"
  by (induction xs arbitrary: rs rule: float_array.induct) auto

lemma snap_to_bounds_Inr:
  assumes "snap_to_bounds bs a w = (w', Inr u)"
  shows "\<exists>lbs ubs. length lbs = length bs \<and> length ubs = length bs
           \<and> length (arrays w a) = length bs
           \<and> (\<forall>i<length bs. pair_of (bs ! i) = Some (lbs ! i, ubs ! i))
           \<and> arrays w' a = assign_above (assign_below (arrays w a) lbs) ubs"
proof -
  from assms obtain ls us lbs ubs where
    ls: "emap (\<lambda>b. bound_item b 0) bs = Inr ls" and
    us: "emap (\<lambda>b. bound_item b 1) bs = Inr us" and
    lbs: "float_array ls = Some lbs" and
    ubs: "float_array us = Some ubs" and
    len: "length lbs = length (arrays w a)" and
    w': "arrays w' a = assign_above (assign_below (arrays w a) lbs) ubs"
    by (auto simp add: snap_to_bounds_def Let_def split: sum.splits option.splits if_splits)
  from float_array_Some [OF lbs] float_array_Some [OF ubs]
  have l: "ls = map Num lbs" and u: "us = map Num ubs" by simp_all
  from emap_Inr [OF ls] emap_Inr [OF us] l u
  have n: "length lbs = length bs" "length ubs = length bs"
    and items: "\<forall>i<length bs. bound_item (bs ! i) 0 = Inr (Num (lbs ! i))"
               "\<forall>i<length bs. bound_item (bs ! i) 1 = Inr (Num (ubs ! i))"
    by auto
  from items have "\<forall>i<length bs. pair_of (bs ! i) = Some (lbs ! i, ubs ! i)"
    by (simp add: pair_of_def)
  with n len w' show ?thesis by auto
qed

lemma project_pair:
  assumes "pair_of b = Some (l, u)" and "l \<le> u"
  shows "(let p1 = (if p < l then l else p) in if u < p1 then u else p1) = project b p"
    and "nan_or_inside b (project b p)"
proof -
  from assms(2) have nl: "\<not> u < l" by (rule fl_le_not_less)
  from assms(1) nl show "(let p1 = (if p < l then l else p) in if u < p1 then u else p1) = project b p"
    by (simp add: project_def Let_def)
  show "nan_or_inside b (project b p)"
  proof (cases "p < l")
    case True
    with assms fl_le_refl [OF assms(2)] show ?thesis
      by (simp add: nan_or_inside_def inside_def project_def)
  next
    case below: False
    show ?thesis
    proof (cases "u < p")
      case True
      with below assms fl_le_refl [OF assms(2)] show ?thesis
        by (simp add: nan_or_inside_def inside_def project_def)
    next
      case False
      with below assms fl_between [OF below False assms(2)] show ?thesis
        by (auto simp add: nan_or_inside_def inside_def project_def)
    qed
  qed
qed

lemma snap_to_bounds_project:
  assumes "snap_to_bounds bs a w = (w', Inr u)" and "list_all ordered bs"
  shows "arrays w' a = map2 project bs (arrays w a)"
    and "list_all2 nan_or_inside bs (arrays w' a)"
proof -
  from snap_to_bounds_Inr [OF assms(1)] obtain lbs ubs where
    n: "length lbs = length bs" "length ubs = length bs" "length (arrays w a) = length bs" and
    p: "\<forall>i<length bs. pair_of (bs ! i) = Some (lbs ! i, ubs ! i)" and
    w': "arrays w' a = assign_above (assign_below (arrays w a) lbs) ubs"
    by blast
  have len: "length (arrays w' a) = length bs"
    using n by (simp add: w' assign_above_def assign_below_def)
  have el: "arrays w' a ! i = project (bs ! i) (arrays w a ! i)
            \<and> nan_or_inside (bs ! i) (arrays w' a ! i)" if i: "i < length bs" for i
  proof -
    from assms(2) i have "ordered (bs ! i)" by (simp add: list_all_length)
    with p i have le: "lbs ! i \<le> ubs ! i" and pr: "pair_of (bs ! i) = Some (lbs ! i, ubs ! i)"
      by (simp_all add: ordered_def)
    from i n have "arrays w' a ! i =
        (let p1 = (if arrays w a ! i < lbs ! i then lbs ! i else arrays w a ! i)
         in if ubs ! i < p1 then ubs ! i else p1)"
      by (simp add: w' assign_above_def assign_below_def Let_def)
    with project_pair [OF pr le, of "arrays w a ! i"] show ?thesis by simp
  qed
  from el have el1: "\<And>i. i < length bs \<Longrightarrow> arrays w' a ! i = project (bs ! i) (arrays w a ! i)"
    and el2: "\<And>i. i < length bs \<Longrightarrow> nan_or_inside (bs ! i) (arrays w' a ! i)"
    by blast+
  from len n el1 show "arrays w' a = map2 project bs (arrays w a)"
    by (intro nth_equalityI) simp_all
  from len el2 show "list_all2 nan_or_inside bs (arrays w' a)"
    by (simp add: list_all2_conv_all_nth)
qed

lemma spec_iteration_success:
  assumes "spec_iteration d objective jacm bnds step_size beta1 beta2 args pass_self it (self, m, v) w
             = (w', Inr (self', m', v'))"
  obtains w1 ofv grad val ga w2 where
    "evaluate objective jacm (arrays w (params self))
             (call_args pass_self args (self\<lparr>iteration := iteration self + 1\<rparr>)) w
             = (w1, Inr (ofv, grad))"
    and "(if d then update_params step_size ga
                 (self\<lparr>iteration := iteration self + 1, of_list := of_list self @ [val]\<rparr>) w1
             else (w1, Inr (self\<lparr>iteration := iteration self + 1, of_list := of_list self @ [val]\<rparr>)))
             = (w2, Inr self')"
    and "(if bnds \<noteq> None \<and> bnds \<noteq> Some []
             then (case bounds self' of
                     None \<Rightarrow> (w2, Inl TypeError)
                   | Some bs \<Rightarrow> snap_to_bounds bs (params self') w2)
             else (w2, Inr ())) = (w', Inr ())"
  using assms
  by (auto simp add: spec_iteration_def Let_def split: prod.splits sum.splits)

lemma bcast_Nil: "bcast f [] ys = Inr ps \<Longrightarrow> ps = []"
  by (auto simp add: bcast_def split: if_splits)

lemma update_params_result:
  assumes "update_params step_size ga self w = (w', Inr self')"
  shows "bcast (-) (arrays w (params self)) (map (\<lambda>x. Fin step_size * x) ga)
           = Inr (arrays w' (params self'))"
  using assms by (auto simp add: update_params_def new_array_def split: sum.splits)

lemma adam_iteration_inside:
  assumes run: "adam_iteration objective jacm (Some bs0) nepochs step_size beta1 beta2 args pass_self
                  it (self, m, v) w = (w', Inr (self', m', v'))"
    and b: "bounds self = Some bs"
    and ord: "list_all ordered bs"
    and empty: "bs0 = [] \<longrightarrow> bs = [] \<and> arrays w (params self) = []"
  shows "list_all2 nan_or_inside bs (arrays w' (params self'))"
    and "bounds self' = Some bs"
    and "bs0 \<noteq> [] \<longrightarrow>
         (\<exists>pre. (if int it < nepochs - 1
                 then \<exists>ga. bcast (-) (arrays w (params self)) (map (\<lambda>x. Fin step_size * x) ga)
                             = Inr pre
                 else pre = arrays w (params self))
              \<and> arrays w' (params self') = map2 project bs pre)"
proof -
  from run [unfolded adam_iteration_spec]
  obtain w1 ofv grad val ga w2 where
    ev: "evaluate objective jacm (arrays w (params self))
             (call_args pass_self args (self\<lparr>iteration := iteration self + 1\<rparr>)) w
             = (w1, Inr (ofv, grad))" and
    up: "(if int it < nepochs - 1 then update_params step_size ga
                 (self\<lparr>iteration := iteration self + 1, of_list := of_list self @ [val]\<rparr>) w1
             else (w1, Inr (self\<lparr>iteration := iteration self + 1, of_list := of_list self @ [val]\<rparr>)))
             = (w2, Inr self')" and
    sn: "(if Some bs0 \<noteq> None \<and> Some bs0 \<noteq> Some []
             then (case bounds self' of
                     None \<Rightarrow> (w2, Inl TypeError)
                   | Some bs \<Rightarrow> snap_to_bounds bs (params self') w2)
             else (w2, Inr ())) = (w', Inr ())"
    by (rule spec_iteration_success)
  from evaluate_frame [OF ev] have w1: "arrays w1 = arrays w" by simp
  show b': "bounds self' = Some bs"
    using up b by (auto dest: update_params_Inr split: if_splits)
  have pre: "if int it < nepochs - 1
             then bcast (-) (arrays w (params self)) (map (\<lambda>x. Fin step_size * x) ga)
                    = Inr (arrays w2 (params self'))
             else arrays w2 (params self') = arrays w (params self)"
  proof (cases "int it < nepochs - 1")
    case True
    with up have "update_params step_size ga
                 (self\<lparr>iteration := iteration self + 1, of_list := of_list self @ [val]\<rparr>) w1
             = (w2, Inr self')" by simp
    from update_params_result [OF this] w1 True show ?thesis by simp
  next
    case False
    with up w1 show ?thesis by auto
  qed
  show "list_all2 nan_or_inside bs (arrays w' (params self'))"
  proof (cases "bs0 = []")
    case False
    with sn b' have "snap_to_bounds bs (params self') w2 = (w', Inr ())" by simp
    from snap_to_bounds_project(2) [OF this ord] show ?thesis .
  next
    case True
    with empty have e: "bs = []" "arrays w (params self) = []" by simp_all
    from True sn have w': "w' = w2" by simp
    from pre e have "arrays w2 (params self') = []"
      by (auto dest: bcast_Nil split: if_splits)
    with w' e show ?thesis by simp
  qed
  show "bs0 \<noteq> [] \<longrightarrow>
         (\<exists>pre. (if int it < nepochs - 1
                 then \<exists>ga. bcast (-) (arrays w (params self)) (map (\<lambda>x. Fin step_size * x) ga)
                             = Inr pre
                 else pre = arrays w (params self))
              \<and> arrays w' (params self') = map2 project bs pre)"
  proof
    assume "bs0 \<noteq> []"
    with sn b' have "snap_to_bounds bs (params self') w2 = (w', Inr ())" by simp
    from snap_to_bounds_project(1) [OF this ord]
    have "arrays w' (params self') = map2 project bs (arrays w2 (params self'))" .
    with pre show "\<exists>pre. (if int it < nepochs - 1
                 then \<exists>ga. bcast (-) (arrays w (params self)) (map (\<lambda>x. Fin step_size * x) ga)
                             = Inr pre
                 else pre = arrays w (params self))
              \<and> arrays w' (params self') = map2 project bs pre"
      by (cases "int it < nepochs - 1") auto
  qed
qed

lemma adam_loop_inside:
  assumes ord: "list_all ordered bs" and e: "bs0 = [] \<longrightarrow> bs = []"
  shows "adam_loop objective jacm (Some bs0) nepochs step_size beta1 beta2 args pass_self
           its (self, m, v) w = (w', Inr (self', m', v')) \<Longrightarrow>
         bounds self = Some bs \<Longrightarrow> (bs0 = [] \<longrightarrow> arrays w (params self) = []) \<Longrightarrow> its \<noteq> [] \<Longrightarrow>
         list_all2 nan_or_inside bs (arrays w' (params self'))"
proof (induction its arbitrary: self m v w)
  case Nil
  then show ?case by simp
next
  case (Cons it its)
  from Cons.prems(1) obtain w1 self1 m1 v1 where
    a: "adam_iteration objective jacm (Some bs0) nepochs step_size beta1 beta2 args pass_self
          it (self, m, v) w = (w1, Inr (self1, m1, v1))" and
    r: "adam_loop objective jacm (Some bs0) nepochs step_size beta1 beta2 args pass_self
          its (self1, m1, v1) w1 = (w', Inr (self', m', v'))"
    by (auto split: prod.splits sum.splits)
  from e Cons.prems(3) have "bs0 = [] \<longrightarrow> bs = [] \<and> arrays w (params self) = []" by simp
  from adam_iteration_inside(1,2) [OF a Cons.prems(2) ord this]
  have i: "list_all2 nan_or_inside bs (arrays w1 (params self1))" and b1: "bounds self1 = Some bs"
    by simp_all
  show ?case
  proof (cases "its = []")
    case True
    with r i show ?thesis by simp
  next
    case False
    from i e have "bs0 = [] \<longrightarrow> arrays w1 (params self1) = []" by auto
    from Cons.IH [OF r b1 this False] show ?thesis .
  qed
qed

text \<open>
  C4, amended. With bounds supplied that parse, each pair with \<open>lb \<le> ub\<close>: in every
  iteration that completes, clamping is the hard projection of the vector the update
  step left (a parameter below \<open>lb\<close> is set to \<open>lb\<close>, one above \<open>ub\<close> to \<open>ub\<close>, every other
  stays, a NaN among them); after every completed iteration of the loop (the first
  \<open>k \<ge> 1\<close> of them), and in the vector that a run with \<open>Nepochs \<ge> 1\<close> returns, every
  parameter that is not NaN lies within its interval.
\<close>

theorem adam_params_within_bounds:
  assumes parse: "parse_bounds w (self\<lparr>params := pstart\<rparr>) (Some bs0) = Inr (Some bs)"
    and ord: "list_all ordered bs"
  shows "(snap_to_bounds bs c u = (u', Inr ()) \<longrightarrow> arrays u' c = map2 project bs (arrays u c))
       \<and> (bs0 \<noteq> [] \<and> bounds s = Some bs \<and>
          adam_iteration objective jacm (Some bs0) nepochs step_size beta1 beta2 args pass_self it
            (s, m0, v0) u = (u1, Inr (s1, m1, v1))
          \<longrightarrow> (\<exists>pre. (if int it < nepochs - 1
                       then \<exists>ga. bcast (-) (arrays u (params s)) (map (\<lambda>x. Fin step_size * x) ga)
                                   = Inr pre
                       else pre = arrays u (params s))
                    \<and> arrays u1 (params s1) = map2 project bs pre))
       \<and> (1 \<le> k \<and>
          adam_loop objective jacm (Some bs0) nepochs step_size beta1 beta2 args pass_self [0..<k]
            (self\<lparr>params := pstart, bounds := Some bs, Nepochs := nepochs, disp_p := dispp,
                   iteration := 0, of_list := []\<rparr>, [], []) w = (w1, Inr (self1, m, v))
          \<longrightarrow> list_all2 nan_or_inside bs (arrays w1 (params self1)))
       \<and> (1 \<le> nepochs \<and>
          adam objective jacm self w pstart nepochs (Some bs0) dispp step_size beta1 beta2 args pass_self
            = (w', Inr (self', a, tr))
          \<longrightarrow> list_all2 nan_or_inside bs (arrays w' a))"
proof -
  let ?self2 = "self\<lparr>params := pstart, bounds := Some bs, Nepochs := nepochs, disp_p := dispp,
                     iteration := 0, of_list := []\<rparr>"
  from parse have e: "bs0 = [] \<longrightarrow> bs = []" and e': "bs0 = [] \<longrightarrow> arrays w (params ?self2) = []"
    by (auto simp add: parse_bounds_def split: if_splits)
  have clamp: "arrays u' c = map2 project bs (arrays u c)"
    if "snap_to_bounds bs c u = (u', Inr ())"
    using snap_to_bounds_project(1) [OF that ord] .
  have step: "\<exists>pre. (if int it < nepochs - 1
                       then \<exists>ga. bcast (-) (arrays u (params s)) (map (\<lambda>x. Fin step_size * x) ga)
                                   = Inr pre
                       else pre = arrays u (params s))
                    \<and> arrays u1 (params s1) = map2 project bs pre"
    if "bs0 \<noteq> [] \<and> bounds s = Some bs \<and>
          adam_iteration objective jacm (Some bs0) nepochs step_size beta1 beta2 args pass_self it
            (s, m0, v0) u = (u1, Inr (s1, m1, v1))"
  proof -
    from that have ne: "bs0 \<noteq> []" and bs: "bounds s = Some bs"
      and run: "adam_iteration objective jacm (Some bs0) nepochs step_size beta1 beta2 args
                  pass_self it (s, m0, v0) u = (u1, Inr (s1, m1, v1))"
      by simp_all
    from ne have "bs0 = [] \<longrightarrow> bs = [] \<and> arrays u (params s) = []" by simp
    from adam_iteration_inside(3) [OF run bs ord this] ne show ?thesis by blast
  qed
  have loop: "list_all2 nan_or_inside bs (arrays x (params y))"
    if "its \<noteq> []" and
       "adam_loop objective jacm (Some bs0) nepochs step_size beta1 beta2 args pass_self its
          (?self2, [], []) w = (x, Inr (y, mm, vv))" for its x y mm vv
    using adam_loop_inside [OF ord e that(2) _ e' that(1)] by simp
  have first: "list_all2 nan_or_inside bs (arrays w1 (params self1))"
    if "1 \<le> k \<and>
       adam_loop objective jacm (Some bs0) nepochs step_size beta1 beta2 args pass_self [0..<k]
          (?self2, [], []) w = (w1, Inr (self1, m, v))"
    using loop [of "[0..<k]" w1 self1 m v] that by simp
  have second: "list_all2 nan_or_inside bs (arrays w' a)"
    if "1 \<le> nepochs \<and>
        adam objective jacm self w pstart nepochs (Some bs0) dispp step_size beta1 beta2 args pass_self
            = (w', Inr (self', a, tr))"
  proof -
    from that have n: "1 \<le> nepochs"
      and run: "adam objective jacm self w pstart nepochs (Some bs0) dispp step_size beta1 beta2
                  args pass_self = (w', Inr (self', a, tr))"
      by simp_all
    from run parse obtain mm vv where
      "adam_loop objective jacm (Some bs0) nepochs step_size beta1 beta2 args pass_self [0..<nat nepochs]
          (?self2, [], []) w = (w', Inr (self', mm, vv))" and "a = params self'"
      by (auto simp add: adam_def Let_def split: prod.splits sum.splits)
    with loop [of "[0..<nat nepochs]" w' self' mm vv] n show ?thesis by simp
  qed
  from clamp step first second show ?thesis by blast
qed

lemma adam_slope_clamped:
  "adam slope JacTrue init (one_array [Fin (-5), Fin 12]) 0 2 (Some [Num (Fin 0), Num (Fin 10)]) False
        (1/100) (9/10) (999/1000) [] False =
     ((one_array [Fin (-5), Fin 12])\<lparr>arrays := (arrays (one_array [Fin (-5), Fin 12]))(1 := [Fin 0, Fin 10]), fresh := 2, calls := 2\<rparr>,
      Inr (init\<lparr>params := 1, bounds := Some [Whole [Num (Fin 0), Num (Fin 10)], Whole [Num (Fin 0), Num (Fin 10)]],
                Nepochs := 2, disp_p := False, iteration := 2,
                of_list := [PyFloat (Fin 7), PyFloat (Fin 10)]\<rparr>,
           1, [PyFloat (Fin 7), PyFloat (Fin 10)]))"
  by (simp add: adam_def parse_bounds_def one_array_def init_def adam_iteration_def evaluate_def
        slope_def get_value_def disp_def step_adam_def bcast_def ebind_def epsilon_default_def
        update_params_def minus_fl_def new_array_def call_args_def snap_to_bounds_def
        assign_below_def assign_above_def upt_rec Let_def)

theorem adam_params_within_bounds_witness:
  "list_all ordered [Whole [Num (Fin 0), Num (Fin 10)], Whole [Num (Fin 0), Num (Fin 10)]]
   \<and> snap_to_bounds [Whole [Num (Fin 0), Num (Fin 10)], Whole [Num (Fin 0), Num (Fin 10)]] 0 (one_array [Fin (-5), Fin 12])
       = ((one_array [Fin (-5), Fin 12])\<lparr>arrays := (arrays (one_array [Fin (-5), Fin 12]))(0 := [Fin 0, Fin 10])\<rparr>, Inr ())
   \<and> map2 project [Whole [Num (Fin 0), Num (Fin 10)], Whole [Num (Fin 0), Num (Fin 10)]] [Fin (-5), Fin 12] = [Fin 0, Fin 10]
   \<and> adam_iteration slope JacTrue (Some [Num (Fin 0), Num (Fin 10)]) 2 (1/100) (9/10) (999/1000)
         [] False 1 (init\<lparr>bounds := Some [Whole [Num (Fin 0), Num (Fin 10)], Whole [Num (Fin 0), Num (Fin 10)]]\<rparr>, [Fin 0, Fin 0], [Fin 0, Fin 0]) (one_array [Fin (-5), Fin 12])
       = ((one_array [Fin (-5), Fin 12])\<lparr>arrays := (arrays (one_array [Fin (-5), Fin 12]))(0 := [Fin 0, Fin 10]), calls := 1\<rparr>,
          Inr (init\<lparr>bounds := Some [Whole [Num (Fin 0), Num (Fin 10)], Whole [Num (Fin 0), Num (Fin 10)]], iteration := 1, of_list := [PyFloat (Fin 7)]\<rparr>,
               [Fin (1/10), Fin (1/10)], [Fin (1/1000), Fin (1/1000)]))
   \<and> list_all2 nan_or_inside [Whole [Num (Fin 0), Num (Fin 10)], Whole [Num (Fin 0), Num (Fin 10)]] [Fin 0, Fin 10]
   \<and> snd (adam slope JacTrue init (one_array [Fin (-5), Fin 12]) 0 2 (Some [Num (Fin 0), Num (Fin 10)]) False
              (1/100) (9/10) (999/1000) [] False)
       = Inr (init\<lparr>params := 1, bounds := Some [Whole [Num (Fin 0), Num (Fin 10)], Whole [Num (Fin 0), Num (Fin 10)]],
                Nepochs := 2, disp_p := False, iteration := 2,
                of_list := [PyFloat (Fin 7), PyFloat (Fin 10)]\<rparr>,
           1, [PyFloat (Fin 7), PyFloat (Fin 10)])"
proof -
  have p: "parse_bounds (one_array [Fin (-5), Fin 12]) (init\<lparr>params := 0\<rparr>) (Some [Num (Fin 0), Num (Fin 10)])
             = Inr (Some [Whole [Num (Fin 0), Num (Fin 10)], Whole [Num (Fin 0), Num (Fin 10)]])"
    by (simp add: parse_bounds_def one_array_def upt_rec)
  have ord: "list_all ordered [Whole [Num (Fin 0), Num (Fin 10)], Whole [Num (Fin 0), Num (Fin 10)]]"
    by (simp add: ordered_def pair_of_def)
  have sn: "snap_to_bounds [Whole [Num (Fin 0), Num (Fin 10)], Whole [Num (Fin 0), Num (Fin 10)]] 0 (one_array [Fin (-5), Fin 12])
       = ((one_array [Fin (-5), Fin 12])\<lparr>arrays := (arrays (one_array [Fin (-5), Fin 12]))(0 := [Fin 0, Fin 10])\<rparr>, Inr ())"
    by (simp add: snap_to_bounds_def ebind_def assign_below_def assign_above_def one_array_def)
  have pr: "map2 project [Whole [Num (Fin 0), Num (Fin 10)], Whole [Num (Fin 0), Num (Fin 10)]] [Fin (-5), Fin 12] = [Fin 0, Fin 10]"
    by (simp add: project_def pair_of_def)
  have it: "adam_iteration slope JacTrue (Some [Num (Fin 0), Num (Fin 10)]) 2 (1/100) (9/10) (999/1000)
         [] False 1 (init\<lparr>bounds := Some [Whole [Num (Fin 0), Num (Fin 10)], Whole [Num (Fin 0), Num (Fin 10)]]\<rparr>, [Fin 0, Fin 0], [Fin 0, Fin 0]) (one_array [Fin (-5), Fin 12])
       = ((one_array [Fin (-5), Fin 12])\<lparr>arrays := (arrays (one_array [Fin (-5), Fin 12]))(0 := [Fin 0, Fin 10]), calls := 1\<rparr>,
          Inr (init\<lparr>bounds := Some [Whole [Num (Fin 0), Num (Fin 10)], Whole [Num (Fin 0), Num (Fin 10)]], iteration := 1, of_list := [PyFloat (Fin 7)]\<rparr>,
               [Fin (1/10), Fin (1/10)], [Fin (1/1000), Fin (1/1000)]))"
    by (simp add: one_array_def init_def adam_iteration_def evaluate_def
        slope_def get_value_def disp_def step_adam_def bcast_def ebind_def epsilon_default_def
        call_args_def snap_to_bounds_def assign_below_def assign_above_def Let_def)
  note T = adam_params_within_bounds
         [where w = "(one_array [Fin (-5), Fin 12])" and self = init and pstart = 0
            and ?bs0.0 = "[Num (Fin 0), Num (Fin 10)]"
            and bs = "[Whole [Num (Fin 0), Num (Fin 10)], Whole [Num (Fin 0), Num (Fin 10)]]"
            and objective = slope and jacm = JacTrue and nepochs = 2 and dispp = False
            and step_size = "1/100" and ?beta1.0 = "9/10" and ?beta2.0 = "999/1000"
            and args = "[]" and pass_self = False
            and w' = "(one_array [Fin (-5), Fin 12])\<lparr>arrays := (arrays (one_array [Fin (-5), Fin 12]))(1 := [Fin 0, Fin 10]), fresh := 2, calls := 2\<rparr>"
            and self' = "init\<lparr>params := 1, bounds := Some [Whole [Num (Fin 0), Num (Fin 10)], Whole [Num (Fin 0), Num (Fin 10)]],
                Nepochs := 2, disp_p := False, iteration := 2,
                of_list := [PyFloat (Fin 7), PyFloat (Fin 10)]\<rparr>"
            and a = 1 and tr = "[PyFloat (Fin 7), PyFloat (Fin 10)]"
            and c = 0 and u = "(one_array [Fin (-5), Fin 12])"
            and u' = "(one_array [Fin (-5), Fin 12])\<lparr>arrays := (arrays (one_array [Fin (-5), Fin 12]))(0 := [Fin 0, Fin 10])\<rparr>", OF p ord]
  from T adam_slope_clamped
  have inside: "list_all2 nan_or_inside [Whole [Num (Fin 0), Num (Fin 10)], Whole [Num (Fin 0), Num (Fin 10)]] [Fin 0, Fin 10]"
    by simp
  from T sn have "arrays ((one_array [Fin (-5), Fin 12])\<lparr>arrays := (arrays (one_array [Fin (-5), Fin 12]))(0 := [Fin 0, Fin 10])\<rparr>) 0
                    = map2 project [Whole [Num (Fin 0), Num (Fin 10)], Whole [Num (Fin 0), Num (Fin 10)]] (arrays (one_array [Fin (-5), Fin 12]) 0)"
    by blast
  from ord sn pr it inside adam_slope_clamped show ?thesis by simp
qed

text \<open>
  C4 as stated covers \<open>Nepochs = 0\<close>, where the starting vector comes back as it is,
  outside the bounds if it started outside; and it covers a NaN parameter, which neither
  mask selects: with \<open>beta1 = 1\<close> the first update is \<open>0/0\<close>, the parameter becomes NaN,
  and NaN is what the run returns.
\<close>

theorem adam_outside_bounds:
  "list_all ordered [Whole [Num (Fin 0), Num (Fin 10)]]
   \<and> adam flat JacTrue init (one_array [Fin (-5)]) 0 0 (Some [Num (Fin 0), Num (Fin 10)]) False
        (1/100) (9/10) (999/1000) [] False =
       (one_array [Fin (-5)],
        Inr (init\<lparr>params := 0, bounds := Some [Whole [Num (Fin 0), Num (Fin 10)]], Nepochs := 0,
                  disp_p := False, iteration := 0, of_list := []\<rparr>, 0, []))
   \<and> \<not> list_all2 inside [Whole [Num (Fin 0), Num (Fin 10)]] (arrays (one_array [Fin (-5)]) 0)
   \<and> adam flat JacTrue init (one_array [Fin 5]) 0 2 (Some [Num (Fin 0), Num (Fin 10)]) False
        (1/100) 1 (999/1000) [] False =
       ((one_array [Fin 5])\<lparr>arrays := (arrays (one_array [Fin 5]))(1 := [NaN]),
                            fresh := 2, calls := 2\<rparr>,
        Inr (init\<lparr>params := 1, bounds := Some [Whole [Num (Fin 0), Num (Fin 10)]], Nepochs := 2,
                  disp_p := False, iteration := 2,
                  of_list := [PyFloat (Fin 0), PyFloat (Fin 0)]\<rparr>,
             1, [PyFloat (Fin 0), PyFloat (Fin 0)]))
   \<and> \<not> list_all2 inside [Whole [Num (Fin 0), Num (Fin 10)]] [NaN]"
  by (simp add: adam_def parse_bounds_def one_array_def init_def adam_iteration_def evaluate_def
        flat_def get_value_def disp_def step_adam_def bcast_def ebind_def epsilon_default_def
        update_params_def minus_fl_def new_array_def call_args_def snap_to_bounds_def
        assign_below_def assign_above_def ordered_def inside_def pair_of_def upt_rec Let_def)

subsection \<open>Which arrays a run writes\<close>

lemma update_params_frame:
  assumes "update_params step_size grad_adam self w = (w', r)"
  shows "fresh w \<le> fresh w' \<and> (\<forall>x. x < fresh w \<longrightarrow> arrays w' x = arrays w x)"
  using assms by (auto simp add: update_params_def minus_fl_def new_array_def split: sum.splits)

lemma snap_to_bounds_world:
  assumes "snap_to_bounds bs a w = (w', r)"
  shows "fresh w' = fresh w \<and> (\<forall>x. x \<noteq> a \<longrightarrow> arrays w' x = arrays w x)"
  using assms
  by (auto simp add: snap_to_bounds_def Let_def split: sum.splits option.splits if_splits)

lemma clamp_step_frame:
  assumes "(if bnds \<noteq> None \<and> bnds \<noteq> Some []
            then (case bounds s of
                    None \<Rightarrow> (u, Inl TypeError)
                  | Some bs \<Rightarrow> snap_to_bounds bs (params s) u)
            else (u, Inr ())) = (u', r)"
  shows "fresh u' = fresh u
         \<and> (\<forall>x. bnds = None \<or> bnds = Some [] \<or> x \<noteq> params s \<longrightarrow> arrays u' x = arrays u x)"
  using assms by (auto dest: snap_to_bounds_world split: if_splits option.splits)

lemma update_step_frame:
  assumes "(if d then update_params step_size ga s u else (u, Inr s)) = (u', r)"
  shows "fresh u \<le> fresh u' \<and> (\<forall>x. x < fresh u \<longrightarrow> arrays u' x = arrays u x)
         \<and> (\<forall>s'. r = Inr s' \<longrightarrow> params s' = (if d then fresh u else params s))"
  using assms
  by (auto dest: update_params_frame update_params_Inr split: if_splits)

lemma spec_iteration_frame:
  assumes run: "spec_iteration d objective jacm bnds step_size beta1 beta2 args pass_self it
                  (self, m, v) w = (w', r)"
  shows "fresh w \<le> fresh w'
         \<and> (\<forall>x. x < fresh w \<and> (d \<or> bnds = None \<or> bnds = Some [] \<or> x \<noteq> params self)
                \<longrightarrow> arrays w' x = arrays w x)"
proof -
  let ?self1 = "self\<lparr>iteration := iteration self + 1\<rparr>"
  obtain w1 r1 where ev: "evaluate objective jacm (arrays w (params self))
                            (call_args pass_self args ?self1) w = (w1, r1)"
    by (cases "evaluate objective jacm (arrays w (params self)) (call_args pass_self args ?self1) w")
  from evaluate_frame [OF ev] have w1: "fresh w1 = fresh w" "arrays w1 = arrays w" by simp_all
  define U where "U ga val u =
      (if d then update_params step_size ga (?self1\<lparr>of_list := of_list ?self1 @ [val]\<rparr>) u
       else (u, Inr (?self1\<lparr>of_list := of_list ?self1 @ [val]\<rparr>)))" for ga val u
  define C where "C (s3 :: minimize) u =
      (if bnds \<noteq> None \<and> bnds \<noteq> Some []
       then (case bounds s3 of
               None \<Rightarrow> (u, Inl TypeError)
             | Some bs \<Rightarrow> snap_to_bounds bs (params s3) u)
       else (u, Inr ()))" for s3 u
  have run': "(case r1 of
                 Inl e \<Rightarrow> (w1, Inl e)
               | Inr (ofv, grad) \<Rightarrow>
              (case get_value ofv of
                 Inl e \<Rightarrow> (w1, Inl e)
               | Inr val \<Rightarrow>
              (case disp (?self1\<lparr>of_list := of_list ?self1 @ [val]\<rparr>) of
                 Inl e \<Rightarrow> (w1, Inl e)
               | Inr u \<Rightarrow>
              (case step_adam grad (if it = 0 then replicate (length grad) (Fin 0) else m)
                      (if it = 0 then replicate (length grad) (Fin 0) else v) it beta1 beta2
                      epsilon_default of
                 Inl e \<Rightarrow> (w1, Inl e)
               | Inr (ga, m1, v1) \<Rightarrow>
              (case U ga val w1 of
                 (w2, Inl e) \<Rightarrow> (w2, Inl e)
               | (w2, Inr s3) \<Rightarrow>
              (case C s3 w2 of
                 (w3, Inl e) \<Rightarrow> (w3, Inl e)
               | (w3, Inr u') \<Rightarrow> (w3, Inr (s3, m1, v1)))))))) = (w', r)"
    using run unfolding spec_iteration_def U_def C_def Let_def by (simp add: ev)
  have "w' = w1 \<or>
        (\<exists>val ga w2 r2. U ga val w1 = (w2, r2)
           \<and> (w' = w2 \<or> (\<exists>s3 r3. r2 = Inr s3 \<and> C s3 w2 = (w', r3))))"
    using run' by (auto split: prod.splits sum.splits)
  then show ?thesis
  proof (elim disjE exE conjE)
    assume "w' = w1"
    with w1 show ?thesis by simp
  next
    fix val ga w2 r2
    assume up: "U ga val w1 = (w2, r2)" and "w' = w2"
    with update_step_frame [OF up [unfolded U_def]] w1 show ?thesis by simp
  next
    fix val ga w2 r2 s3 r3
    assume up: "U ga val w1 = (w2, r2)"
      and r2: "r2 = Inr s3"
      and cl: "C s3 w2 = (w', r3)"
    from update_step_frame [OF up [unfolded U_def]] r2 w1
    have a: "fresh w \<le> fresh w2" "\<forall>x. x < fresh w \<longrightarrow> arrays w2 x = arrays w x"
      "params s3 = (if d then fresh w else params self)"
      by simp_all
    from clamp_step_frame [OF cl [unfolded C_def]]
    have b: "fresh w' = fresh w2"
      "\<forall>x. bnds = None \<or> bnds = Some [] \<or> x \<noteq> params s3 \<longrightarrow> arrays w' x = arrays w2 x"
      by simp_all
    from a b show ?thesis by auto
  qed
qed

lemma adam_iteration_frame:
  assumes "adam_iteration objective jacm bnds nepochs step_size beta1 beta2 args pass_self it
             (self, m, v) w = (w', r)"
  shows "fresh w \<le> fresh w'
         \<and> (\<forall>x. x < fresh w \<and>
                  (int it < nepochs - 1 \<or> bnds = None \<or> bnds = Some [] \<or> x \<noteq> params self)
                \<longrightarrow> arrays w' x = arrays w x)
         \<and> (\<forall>self' m' v'. r = Inr (self', m', v') \<longrightarrow>
                params self' = (if int it < nepochs - 1 then fresh w else params self))"
proof -
  from assms have s: "spec_iteration (int it < nepochs - 1) objective jacm bnds step_size beta1 beta2
                        args pass_self it (self, m, v) w = (w', r)"
    by (simp add: adam_iteration_spec)
  from spec_iteration_frame [OF s] spec_iteration_Inr [of "int it < nepochs - 1"] s
  show ?thesis by auto
qed

lemma adam_loop_frame:
  "adam_loop objective jacm bnds nepochs step_size beta1 beta2 args pass_self its (self, m, v) w
     = (w', r) \<Longrightarrow>
   pstart < fresh w \<Longrightarrow> params self \<noteq> pstart \<or> bnds = None \<or> bnds = Some [] \<Longrightarrow>
   arrays w' pstart = arrays w pstart"
proof (induction its arbitrary: self m v w)
  case Nil
  then show ?case by simp
next
  case (Cons it its)
  obtain w1 r1 where a: "adam_iteration objective jacm bnds nepochs step_size beta1 beta2 args
                           pass_self it (self, m, v) w = (w1, r1)"
    by (cases "adam_iteration objective jacm bnds nepochs step_size beta1 beta2 args
                 pass_self it (self, m, v) w")
  from adam_iteration_frame [OF a] Cons.prems(2,3)
  have f: "fresh w \<le> fresh w1" and k: "arrays w1 pstart = arrays w pstart"
    and p: "\<forall>self' m' v'. r1 = Inr (self', m', v') \<longrightarrow>
                params self' = (if int it < nepochs - 1 then fresh w else params self)"
    by auto
  show ?case
  proof (cases r1)
    case (Inl e)
    with Cons.prems(1) a k show ?thesis by simp
  next
    case (Inr st1)
    obtain self1 m1 v1 where st1: "st1 = (self1, m1, v1)" by (cases st1)
    from Cons.prems(1) a Inr st1
    have r: "adam_loop objective jacm bnds nepochs step_size beta1 beta2 args pass_self its
               (self1, m1, v1) w1 = (w', r)"
      by simp
    from p Inr st1 Cons.prems(2,3)
    have "params self1 \<noteq> pstart \<or> bnds = None \<or> bnds = Some []" by auto
    moreover from f Cons.prems(2) have "pstart < fresh w1" by simp
    ultimately have "arrays w' pstart = arrays w1 pstart" using Cons.IH [OF r] by blast
    with k show ?thesis by simp
  qed
qed

text \<open>
  C9, amended. The update step binds \<^verbatim>\<open>self.params\<close> to a newly constructed array and
  writes no existing one; clamping writes into the current parameter array and
  constructs none. The caller's array \<open>pstart\<close> is as before after every run with
  \<open>Nepochs \<noteq> 1\<close>, and after every run without bounds, whether the run returns or
  raises.
\<close>

theorem adam_replaces_params_and_keeps_pstart:
  "(update_params step_size ga s u = (u', Inr s') \<longrightarrow>
      params s' = fresh u \<and> fresh u' = Suc (fresh u)
      \<and> (\<forall>x. x \<noteq> fresh u \<longrightarrow> arrays u' x = arrays u x))
   \<and> (snap_to_bounds bs a u = (u'', r) \<longrightarrow>
      fresh u'' = fresh u \<and> (\<forall>x. x \<noteq> a \<longrightarrow> arrays u'' x = arrays u x))
   \<and> (pstart < fresh w \<and> (nepochs \<noteq> 1 \<or> bnds = None \<or> bnds = Some []) \<longrightarrow>
      arrays (fst (adam objective jacm self w pstart nepochs bnds dispp step_size beta1 beta2
                     args pass_self)) pstart = arrays w pstart)"
proof -
  have one: "params s' = fresh u \<and> fresh u' = Suc (fresh u)
      \<and> (\<forall>x. x \<noteq> fresh u \<longrightarrow> arrays u' x = arrays u x)"
    if "update_params step_size ga s u = (u', Inr s')"
    using update_params_Inr [OF that] by simp
  have two: "fresh u'' = fresh u \<and> (\<forall>x. x \<noteq> a \<longrightarrow> arrays u'' x = arrays u x)"
    if "snap_to_bounds bs a u = (u'', r)"
    using snap_to_bounds_world [OF that] .
  have three: "arrays (fst (adam objective jacm self w pstart nepochs bnds dispp step_size beta1 beta2
                     args pass_self)) pstart = arrays w pstart"
    if h: "pstart < fresh w \<and> (nepochs \<noteq> 1 \<or> bnds = None \<or> bnds = Some [])"
  proof (cases "parse_bounds w (self\<lparr>params := pstart\<rparr>) bnds")
    case (Inl e)
    then show ?thesis by (simp add: adam_def)
  next
    case (Inr pb)
    let ?self2 = "self\<lparr>params := pstart, bounds := pb, Nepochs := nepochs, disp_p := dispp,
                       iteration := 0, of_list := []\<rparr>"
    obtain w' r where loop: "adam_loop objective jacm bnds nepochs step_size beta1 beta2 args
                               pass_self [0..<nat nepochs] (?self2, [], []) w = (w', r)"
      by (cases "adam_loop objective jacm bnds nepochs step_size beta1 beta2 args
                   pass_self [0..<nat nepochs] (?self2, [], []) w")
    from Inr loop have fst: "fst (adam objective jacm self w pstart nepochs bnds dispp step_size
                                    beta1 beta2 args pass_self) = w'"
      by (auto simp add: adam_def Let_def split: sum.splits)
    have "arrays w' pstart = arrays w pstart"
    proof (cases "bnds = None \<or> bnds = Some []")
      case True
      with adam_loop_frame [OF loop] h show ?thesis by blast
    next
      case False
      with h have n1: "nepochs \<noteq> 1" by simp
      show ?thesis
      proof (cases "nepochs \<le> 0")
        case True
        with loop show ?thesis by simp
      next
        case False
        with n1 have two: "2 \<le> nepochs" by simp
        then have range: "[0..<nat nepochs] = 0 # [1..<nat nepochs]"
          by (simp add: upt_conv_Cons)
        obtain w1 r1 where a: "adam_iteration objective jacm bnds nepochs step_size beta1 beta2 args
                                 pass_self 0 (?self2, [], []) w = (w1, r1)"
          by (cases "adam_iteration objective jacm bnds nepochs step_size beta1 beta2 args
                       pass_self 0 (?self2, [], []) w")
        from adam_iteration_frame [OF a] two h
        have f: "fresh w \<le> fresh w1" and k: "arrays w1 pstart = arrays w pstart"
          and p: "\<forall>self' m' v'. r1 = Inr (self', m', v') \<longrightarrow> params self' = fresh w"
          by auto
        show ?thesis
        proof (cases r1)
          case (Inl e)
          with loop a k show ?thesis by (simp add: range)
        next
          case (Inr st1)
          obtain self1 m1 v1 where st1: "st1 = (self1, m1, v1)" by (cases st1)
          from loop a Inr st1
          have r: "adam_loop objective jacm bnds nepochs step_size beta1 beta2 args pass_self
                     [1..<nat nepochs] (self1, m1, v1) w1 = (w', r)"
            by (simp add: range)
          from p Inr st1 h have "params self1 \<noteq> pstart" by auto
          moreover from f h have "pstart < fresh w1" by simp
          ultimately have "arrays w' pstart = arrays w1 pstart"
            using adam_loop_frame [OF r] by blast
          with k show ?thesis by simp
        qed
      qed
    qed
    with fst show ?thesis by simp
  qed
  from one two three show ?thesis by blast
qed

theorem adam_keeps_pstart_witness:
  "update_params (1/100) [Fin 1, Fin 1] init (one_array [Fin 3, Fin 4])
     = ((one_array [Fin 3, Fin 4])\<lparr>arrays := (arrays (one_array [Fin 3, Fin 4]))(1 := [Fin (299/100), Fin (399/100)]),
                          fresh := 2\<rparr>, Inr (init\<lparr>params := 1\<rparr>))
   \<and> snap_to_bounds [Whole [Num (Fin 0), Num (Fin 10)]] 0 (one_array [Fin (-5)])
     = ((one_array [Fin (-5)])\<lparr>arrays := (arrays (one_array [Fin (-5)]))(0 := [Fin 0])\<rparr>, Inr ())
   \<and> arrays (fst (adam slope JacTrue init (one_array [Fin (-5), Fin 12]) 0 2 (Some [Num (Fin 0), Num (Fin 10)]) False
                     (1/100) (9/10) (999/1000) [] False)) 0 = [Fin (-5), Fin 12]
   \<and> arrays (fst (adam slope JacTrue init (one_array [Fin (-5), Fin 12]) 0 2 (Some [Num (Fin 0), Num (Fin 10)]) False
                     (1/100) (9/10) (999/1000) [] False)) 1 = [Fin 0, Fin 10]"
proof -
  have a: "update_params (1/100) [Fin 1, Fin 1] init (one_array [Fin 3, Fin 4])
     = ((one_array [Fin 3, Fin 4])\<lparr>arrays := (arrays (one_array [Fin 3, Fin 4]))(1 := [Fin (299/100), Fin (399/100)]),
                          fresh := 2\<rparr>, Inr (init\<lparr>params := 1\<rparr>))"
    by (simp add: update_params_def minus_fl_def new_array_def bcast_def one_array_def init_def)
  have b: "snap_to_bounds [Whole [Num (Fin 0), Num (Fin 10)]] 0 (one_array [Fin (-5)])
     = ((one_array [Fin (-5)])\<lparr>arrays := (arrays (one_array [Fin (-5)]))(0 := [Fin 0])\<rparr>, Inr ())"
    by (simp add: snap_to_bounds_def ebind_def assign_below_def assign_above_def one_array_def)
  have c: "(0::nat) < fresh (one_array [Fin (-5), Fin 12])" by (simp add: one_array_def)
  have n: "(2::int) \<noteq> 1" by simp
  note T = adam_replaces_params_and_keeps_pstart
         [where pstart = 0 and w = "one_array [Fin (-5), Fin 12]" and nepochs = 2
            and bnds = "Some [Num (Fin 0), Num (Fin 10)]" and objective = slope and jacm = JacTrue
            and self = init and dispp = False and step_size = "1/100"
            and ?beta1.0 = "9/10" and ?beta2.0 = "999/1000" and args = "[]" and pass_self = False
            and ga = "[Fin 1, Fin 1]" and s = init and u = "one_array [Fin 3, Fin 4]"
            and bs = "[Whole [Num (Fin 0), Num (Fin 10)]]" and a = 0]
  from T c n
  have "arrays (fst (adam slope JacTrue init (one_array [Fin (-5), Fin 12]) 0 2 (Some [Num (Fin 0), Num (Fin 10)]) False
                  (1/100) (9/10) (999/1000) [] False)) 0 = arrays (one_array [Fin (-5), Fin 12]) 0"
    by blast
  then have three:
    "arrays (fst (adam slope JacTrue init (one_array [Fin (-5), Fin 12]) 0 2 (Some [Num (Fin 0), Num (Fin 10)]) False
                  (1/100) (9/10) (999/1000) [] False)) 0 = [Fin (-5), Fin 12]"
    by (simp add: one_array_def)
  have four:
    "arrays (fst (adam slope JacTrue init (one_array [Fin (-5), Fin 12]) 0 2 (Some [Num (Fin 0), Num (Fin 10)]) False
                  (1/100) (9/10) (999/1000) [] False)) 1 = [Fin 0, Fin 10]"
    by (simp add: adam_slope_clamped)
  from a b three four show ?thesis by blast
qed

text \<open>
  C9 as stated also covers \<open>Nepochs = 1\<close> with bounds: the only iteration does not step,
  \<^verbatim>\<open>self.params\<close> is still the caller's array, and clamping writes into it.
\<close>

theorem adam_one_epoch_writes_pstart:
  "arrays (one_array [Fin (-5)]) 0 = [Fin (-5)]
   \<and> adam flat JacTrue init (one_array [Fin (-5)]) 0 1 (Some [Num (Fin 0), Num (Fin 10)]) False
        (1/100) (9/10) (999/1000) [] False =
       ((one_array [Fin (-5)])\<lparr>arrays := (arrays (one_array [Fin (-5)]))(0 := [Fin 0]), calls := 1\<rparr>,
        Inr (init\<lparr>params := 0, bounds := Some [Whole [Num (Fin 0), Num (Fin 10)]], Nepochs := 1,
                  disp_p := False, iteration := 1, of_list := [PyFloat (Fin 0)]\<rparr>, 0, [PyFloat (Fin 0)]))
   \<and> arrays (fst (adam flat JacTrue init (one_array [Fin (-5)]) 0 1 (Some [Num (Fin 0), Num (Fin 10)]) False
                     (1/100) (9/10) (999/1000) [] False)) 0 = [Fin 0]"
  by (simp add: adam_def parse_bounds_def one_array_def init_def adam_iteration_def evaluate_def
        flat_def get_value_def disp_def step_adam_def bcast_def ebind_def epsilon_default_def
        update_params_def minus_fl_def new_array_def call_args_def snap_to_bounds_def assign_below_def
        assign_above_def upt_rec Let_def)

end
